theory Spec2Isabelle
  imports Complex_Main "HOL-Library.AList" "HOL-Library.Char_ord" "HOL-Library.List_Lexorder"
begin

section \<open>Python values used by the feedback analyzer\<close>

text \<open>
  Python strings are modelled as \<open>string\<close> (lists of \<open>char\<close>): one \<open>char\<close> is one
  code point in the range 0..255, so \<open>length\<close> is Python's \<open>len\<close> on such strings.
  \<open>py_isspace\<close> is \<open>str.isspace\<close> on that range (tab, line feed, vertical tab, form
  feed, carriage return, the four separators 28..31, space, NEL and the no-break space);
  it is also the class \<open>\s\<close> of the \<open>re\<close> module for \<open>str\<close> patterns.
  \<open>py_lower\<close> is \<open>str.lower\<close> on that range.
\<close>

definition py_isspace :: "char \<Rightarrow> bool" where
  "py_isspace c =
     (let n = (of_char c :: nat)
      in (9 \<le> n \<and> n \<le> 13) \<or> (28 \<le> n \<and> n \<le> 32) \<or> n = 133 \<or> n = 160)"

definition lower_char :: "char \<Rightarrow> char" where
  "lower_char c =
     (let n = (of_char c :: nat)
      in if (65 \<le> n \<and> n \<le> 90) \<or> (192 \<le> n \<and> n \<le> 222 \<and> n \<noteq> 215)
         then char_of (n + 32) else c)"

definition py_lower :: "string \<Rightarrow> string" where
  "py_lower s = map lower_char s"

definition py_strip :: "string \<Rightarrow> string" where
  "py_strip s = rev (dropWhile py_isspace (rev (dropWhile py_isspace s)))"

text \<open>A value of a JSON request body or of a Python list: only strings matter here.\<close>

datatype pyval = PyStr string | PyInt int | PyNone

section \<open>Validation utilities (\<open>utils/validators.py\<close>)\<close>

subsection \<open>\<open>validate_tags\<close>\<close>

text \<open>
  The first loop: entries that are not strings are skipped, each string is stripped and
  appended to \<open>cleaned_tags\<close> when it is non-empty and at most 50 characters long.
\<close>

fun clean_loop :: "pyval list \<Rightarrow> string list \<Rightarrow> string list" where
  "clean_loop [] cleaned_tags = cleaned_tags"
| "clean_loop (PyStr tag # rest) cleaned_tags =
     (let cleaned_tag = py_strip tag
      in if cleaned_tag \<noteq> [] \<and> length cleaned_tag \<le> 50
         then clean_loop rest (cleaned_tags @ [cleaned_tag])
         else clean_loop rest cleaned_tags)"
| "clean_loop (_ # rest) cleaned_tags = clean_loop rest cleaned_tags"

text \<open>The second loop, with the set \<open>seen\<close> of lower-cased tags and the list built so far.\<close>

fun unique_loop :: "string list \<Rightarrow> string set \<Rightarrow> string list \<Rightarrow> string list" where
  "unique_loop [] seen unique_tags = unique_tags"
| "unique_loop (tag # rest) seen unique_tags =
     (if py_lower tag \<notin> seen
      then unique_loop rest (insert (py_lower tag) seen) (unique_tags @ [tag])
      else unique_loop rest seen unique_tags)"

text \<open>\<open>tags\<close> is \<open>Optional[List[str]]\<close>: \<open>None\<close> and the empty list are both falsy.\<close>

definition validate_tags :: "pyval list option \<Rightarrow> string list" where
  "validate_tags tags =
     (case tags of
        None \<Rightarrow> []
      | Some l \<Rightarrow>
          if l = [] then []
          else take 10 (unique_loop (clean_loop l []) {} []))"

subsection \<open>The tag cleaner as the specification words it\<close>

text \<open>
  The entries of a list that are strings; the test a trimmed tag has to pass; and
  case-insensitive de-duplication that keeps the first occurrence of every tag and drops
  each later tag whose lower-cased form has been seen.
\<close>

fun str_entries :: "pyval list \<Rightarrow> string list" where
  "str_entries [] = []"
| "str_entries (PyStr s # rest) = s # str_entries rest"
| "str_entries (_ # rest) = str_entries rest"

definition tag_ok :: "string \<Rightarrow> bool" where
  "tag_ok t = (t \<noteq> [] \<and> length t \<le> 50)"

function dedup_ci :: "string list \<Rightarrow> string list" where
  "dedup_ci [] = []"
| "dedup_ci (x # xs) = x # dedup_ci (filter (\<lambda>y. py_lower y \<noteq> py_lower x) xs)"
  by pat_completeness auto
termination
  by (relation "measure length") (auto simp: less_Suc_eq_le)

subsection \<open>\<open>validate_pagination\<close>\<close>

definition validate_pagination :: "int \<Rightarrow> int \<Rightarrow> int \<times> int" where
  "validate_pagination page page_size =
     (let page = (if page < 1 then 1 else page);
          page_size = (if page_size < 1 then 20
                       else if page_size > 100 then 100 else page_size)
      in (page, page_size))"

subsection \<open>\<open>validate_sentiment\<close>\<close>

definition valid_sentiments :: "string list" where
  "valid_sentiments = [''positive'', ''neutral'', ''negative'']"


section \<open>Error taxonomy (\<open>utils/exceptions.py\<close>)\<close>

text \<open>
  The exceptions the classify-and-save flow can meet: \<open>AIServiceError\<close> with its
  message, and any other subclass of \<open>Exception\<close> with the text \<open>str(e)\<close> gives.
  \<open>status_code\<close> is what the two exception handlers of \<open>main.py\<close> answer with:
  the status an \<open>APIError\<close> declares (503 for \<open>AIServiceError\<close>), 500 for anything
  else.
\<close>

datatype exn = AIServiceError string | OtherException string

definition str_exn :: "exn \<Rightarrow> string" where
  "str_exn e = (case e of AIServiceError m \<Rightarrow> m | OtherException m \<Rightarrow> m)"


datatype http_exception = HTTPException int string

section \<open>Request schema \<open>FeedbackCreate\<close> (\<open>models/schemas.py\<close>)\<close>

datatype validation_error =
  string_too_short | string_too_long | string_type | value_error string

text \<open>The field validator of \<open>text\<close>: it runs after the constraints of the field.\<close>

definition validate_text :: "string \<Rightarrow> validation_error + string" where
  "validate_text v =
     (if py_strip v = [] then Inl (value_error ''Feedback text cannot be empty'')
      else Inr (py_strip v))"

text \<open>
  \<open>text: str = Field(..., min_length=1, max_length=5000)\<close>: the two length constraints
  are checked on the string as it was sent, then \<open>validate_text\<close> runs.
\<close>

definition FeedbackCreate_text :: "string \<Rightarrow> validation_error + string" where
  "FeedbackCreate_text v =
     (if length v < 1 then Inl string_too_short
      else if length v > 5000 then Inl string_too_long
      else validate_text v)"

text \<open>
  \<open>tags: Optional[List[str]]\<close>: every entry has to be a string. The validator builds a
  Python \<open>set\<close> of the trimmed non-empty tags and lists it; the order of that listing is
  the set's iteration order, the parameter \<open>listing\<close> here.
\<close>

fun all_strings :: "pyval list \<Rightarrow> string list option" where
  "all_strings [] = Some []"
| "all_strings (PyStr s # rest) = map_option ((#) s) (all_strings rest)"
| "all_strings (_ # rest) = None"

definition FeedbackCreate_tags ::
  "(string set \<Rightarrow> string list) \<Rightarrow> pyval list option \<Rightarrow> validation_error + string list" where
  "FeedbackCreate_tags listing v =
     (case v of
        None \<Rightarrow> Inr []
      | Some l \<Rightarrow>
          (case all_strings l of
             None \<Rightarrow> Inl string_type
           | Some ts \<Rightarrow>
               Inr (take 10 (listing (set (map py_strip (filter (\<lambda>tag. py_strip tag \<noteq> []) ts)))))))"

definition FeedbackCreate ::
  "(string set \<Rightarrow> string list) \<Rightarrow> string \<Rightarrow> pyval list option
     \<Rightarrow> validation_error + (string \<times> string list)" where
  "FeedbackCreate listing body_text body_tags =
     (case FeedbackCreate_text body_text of
        Inl e \<Rightarrow> Inl e
      | Inr t \<Rightarrow>
          (case FeedbackCreate_tags listing body_tags of
             Inl e \<Rightarrow> Inl e
           | Inr ts \<Rightarrow> Inr (t, ts)))"

text \<open>The text cleaner of the validation utilities: its length test is on the trimmed text.\<close>

function collapse_ws :: "string \<Rightarrow> string" where
  "collapse_ws [] = []"
| "collapse_ws (c # cs) =
     (if py_isspace c then CHR '' '' # collapse_ws (dropWhile py_isspace cs)
      else c # collapse_ws cs)"
  by pat_completeness auto
termination
  by (relation "measure length") (auto simp: le_imp_less_Suc length_dropWhile_le)

definition validate_feedback_text :: "string \<Rightarrow> string + string" where
  "validate_feedback_text text0 =
     (if text0 = [] \<or> py_strip text0 = [] then Inl ''Feedback text cannot be empty''
      else let cleaned_text = py_strip text0
           in if length cleaned_text > 5000
              then Inl ''Feedback text cannot exceed 5000 characters''
              else Inr (collapse_ws cleaned_text))"

section \<open>AI gateway client (\<open>services/ai_service.py\<close>)\<close>

subsection \<open>Model fallback in \<open>analyze_feedback\<close>\<close>

text \<open>
  The dictionary \<open>analyze_feedback\<close> returns. Confidences are floats; their type is the
  parameter \<open>'f\<close>, nothing below computes with them.
\<close>

record 'f analysis =
  an_sentiment :: string
  an_sentiment_confidence :: 'f
  an_category :: string
  an_category_confidence :: 'f
  an_model_used :: string

text \<open>
  The gateway: what the pair of calls \<open>_analyze_sentiment\<close> and \<open>_categorize_feedback\<close>
  gathered for one model gives for a text, either the exception that \<open>gather\<close> raises or
  the two results, each a label and a confidence.
\<close>

type_synonym 'f gateway = "string \<Rightarrow> string \<Rightarrow> exn + ((string \<times> 'f) \<times> (string \<times> 'f))"

definition models :: "string list" where
  "models = [''qwen/qwen3-235b-a22b-07-25:free'']"

text \<open>
  The dictionary a successful pair is combined into, and the loop over \<open>models\<close>.
  \<open>ms\<close> is the whole list (for \<open>models[-1]\<close>), the fourth argument the models still
  to try, \<open>tried\<close> the models called so far. The loop ending without a return gives
  Python's \<open>None\<close>.
\<close>

definition combined_result ::
  "string \<times> 'f \<Rightarrow> string \<times> 'f \<Rightarrow> string \<Rightarrow> 'f analysis" where
  "combined_result sentiment_result category_result model =
     \<lparr>an_sentiment = fst sentiment_result,
      an_sentiment_confidence = snd sentiment_result,
      an_category = fst category_result,
      an_category_confidence = snd category_result,
      an_model_used = model\<rparr>"

fun analyze_loop ::
  "string list \<Rightarrow> 'f gateway \<Rightarrow> string \<Rightarrow> string list \<Rightarrow> string list
     \<Rightarrow> string list \<times> (exn + 'f analysis option)" where
  "analyze_loop ms gw text0 [] tried = (tried, Inr None)"
| "analyze_loop ms gw text0 (model # rest) tried =
     (case gw model text0 of
        Inr (sentiment_result, category_result) \<Rightarrow>
          (tried @ [model], Inr (Some (combined_result sentiment_result category_result model)))
      | Inl e \<Rightarrow>
          if model = last ms
          then (tried @ [model],
                Inl (AIServiceError (''All models failed. Last error: '' @ str_exn e)))
          else analyze_loop ms gw text0 rest (tried @ [model]))"

definition analyze_feedback_models ::
  "string list \<Rightarrow> 'f gateway \<Rightarrow> string \<Rightarrow> string list \<times> (exn + 'f analysis option)" where
  "analyze_feedback_models ms gw text0 = analyze_loop ms gw text0 ms []"

definition analyze_feedback ::
  "'f gateway \<Rightarrow> string \<Rightarrow> string list \<times> (exn + 'f analysis option)" where
  "analyze_feedback gw text0 = analyze_feedback_models models gw text0"

text \<open>
  A gateway for examples, after the mocks of \<open>tests/test_ai_service.py\<close>: the paid model
  is rate limited, every other model answers.
\<close>

definition test_gateway :: "real gateway" where
  "test_gateway model text0 =
     (if model = ''openai/gpt-3.5-turbo''
      then Inl (AIServiceError ''Rate limit exceeded. Please try again later.'')
      else Inr ((''negative'', 0.85), (''Customer Service'', 0.75)))"

section \<open>Storage (\<open>models/feedback.py\<close>, \<open>database.py\<close>)\<close>

text \<open>
  A \<open>FeedbackEntry\<close> row. The fields are the columns, each with the prefix
  \<open>entry_\<close>; \<open>entry_created_at\<close> is a time stamp in seconds. An object that has not
  been committed yet carries 0 in \<open>entry_id\<close> and \<open>entry_created_at\<close>: the storage
  sets both when it inserts the row.
\<close>

record 'f feedback_entry =
  entry_id :: int
  entry_text :: string
  entry_sentiment :: string
  entry_sentiment_confidence :: 'f
  entry_category :: string
  entry_category_confidence :: 'f
  entry_tags :: "string list"
  entry_created_at :: int
  entry_analysis_duration_ms :: int
  entry_model_used :: string

text \<open>
  A session: the rows of the table, the objects added and not yet committed, and the log
  of the calls made on the session.
\<close>

datatype db_op = Add | Commit | Refresh | Rollback

record 'f session =
  committed :: "'f feedback_entry list"
  pending :: "'f feedback_entry list"
  ops :: "db_op list"

text \<open>
  What the flow cannot decide: whether \<open>commit\<close> or \<open>refresh\<close> raises, the clock of the
  storage and the measured duration.
\<close>

record db_env =
  commit_error :: "exn option"
  refresh_error :: "exn option"
  env_now :: int
  env_duration_ms :: int

definition fresh_id :: "'f feedback_entry list \<Rightarrow> int" where
  "fresh_id rows = fold max (map entry_id rows) 0 + 1"

definition insert_row :: "int \<Rightarrow> 'f feedback_entry \<Rightarrow> 'f feedback_entry list \<Rightarrow> 'f feedback_entry list" where
  "insert_row t e rows = rows @ [e\<lparr>entry_id := fresh_id rows, entry_created_at := t\<rparr>]"

definition db_add :: "'f session \<Rightarrow> 'f feedback_entry \<Rightarrow> 'f session" where
  "db_add s e = s\<lparr>pending := pending s @ [e], ops := ops s @ [Add]\<rparr>"

definition db_commit :: "db_env \<Rightarrow> 'f session \<Rightarrow> 'f session \<times> exn option" where
  "db_commit env s =
     (case commit_error env of
        Some e \<Rightarrow> (s\<lparr>ops := ops s @ [Commit]\<rparr>, Some e)
      | None \<Rightarrow>
          (s\<lparr>committed := fold (insert_row (env_now env)) (pending s) (committed s),
             pending := [],
             ops := ops s @ [Commit]\<rparr>, None))"

text \<open>\<open>refresh\<close> reloads the object from its row: after it the object has its id and date.\<close>

definition db_refresh ::
  "db_env \<Rightarrow> 'f session \<Rightarrow> 'f feedback_entry \<Rightarrow> 'f feedback_entry list
     \<Rightarrow> 'f session \<times> (exn + 'f feedback_entry)" where
  "db_refresh env s e rows_before =
     (case refresh_error env of
        Some x \<Rightarrow> (s\<lparr>ops := ops s @ [Refresh]\<rparr>, Inl x)
      | None \<Rightarrow>
          (s\<lparr>ops := ops s @ [Refresh]\<rparr>,
           Inr (e\<lparr>entry_id := fresh_id rows_before, entry_created_at := env_now env\<rparr>)))"

definition db_rollback :: "'f session \<Rightarrow> 'f session" where
  "db_rollback s = s\<lparr>pending := [], ops := ops s @ [Rollback]\<rparr>"

text \<open>
  \<open>FeedbackResponse.model_validate\<close>: the response is the row without \<open>updated_at\<close>,
  which is not modelled; \<open>sentiment\<close> has to be one of the three values of
  \<open>SentimentEnum\<close>.
\<close>

definition FeedbackResponse_model_validate :: "'f feedback_entry \<Rightarrow> exn + 'f feedback_entry" where
  "FeedbackResponse_model_validate e =
     (if entry_sentiment e \<in> set valid_sentiments then Inr e
      else Inl (OtherException ''1 validation error for FeedbackResponse''))"

section \<open>Classify and persist\<close>

text \<open>
  Both flows take \<open>client\<close>, what \<open>analyze_feedback\<close> of the AI gateway client gives for
  a text: an exception or the analysis.
\<close>

definition new_feedback_entry ::
  "string \<Rightarrow> string list \<Rightarrow> 'f analysis \<Rightarrow> int \<Rightarrow> 'f feedback_entry" where
  "new_feedback_entry text0 tags0 analysis duration =
     \<lparr>entry_id = 0,
      entry_text = text0,
      entry_sentiment = an_sentiment analysis,
      entry_sentiment_confidence = an_sentiment_confidence analysis,
      entry_category = an_category analysis,
      entry_category_confidence = an_category_confidence analysis,
      entry_tags = tags0,
      entry_created_at = 0,
      entry_analysis_duration_ms = duration,
      entry_model_used = an_model_used analysis\<rparr>"


subsection \<open>The route \<open>POST /api/feedback/analyze\<close> (\<open>routers/feedback.py\<close>)\<close>

text \<open>The two \<open>except\<close> clauses of the route: roll back, then raise an \<open>HTTPException\<close>.\<close>

definition route_except :: "exn \<Rightarrow> 'f session \<Rightarrow> 'f session \<times> (http_exception + 'f feedback_entry)" where
  "route_except e db =
     (case e of
        AIServiceError m \<Rightarrow> (db_rollback db, Inl (HTTPException 503 m))
      | OtherException m \<Rightarrow> (db_rollback db, Inl (HTTPException 500 ''Internal server error'')))"

definition analyze_feedback_route ::
  "(string \<Rightarrow> exn + 'f analysis) \<Rightarrow> db_env \<Rightarrow> 'f session \<Rightarrow> string \<Rightarrow> string list
     \<Rightarrow> 'f session \<times> (http_exception + 'f feedback_entry)" where
  "analyze_feedback_route client env db text0 tags0 =
     (case client text0 of
        Inl e \<Rightarrow> route_except e db
      | Inr analysis \<Rightarrow>
          let db_feedback = new_feedback_entry text0 tags0 analysis (env_duration_ms env);
              db1 = db_add db db_feedback
          in (case db_commit env db1 of
                (db2, Some e) \<Rightarrow> route_except e db2
              | (db2, None) \<Rightarrow>
                  (case db_refresh env db2 db_feedback (committed db1) of
                     (db3, Inl e) \<Rightarrow> route_except e db3
                   | (db3, Inr refreshed) \<Rightarrow>
                       (case FeedbackResponse_model_validate refreshed of
                          Inl e \<Rightarrow> route_except e db3
                        | Inr response \<Rightarrow> (db3, Inr response)))))"

text \<open>
  The endpoint: the body is validated by \<open>FeedbackCreate\<close> before the route runs, and a
  body that fails is answered with 422 without the route being called.
\<close>

definition post_analyze ::
  "(string \<Rightarrow> exn + 'f analysis) \<Rightarrow> db_env \<Rightarrow> (string set \<Rightarrow> string list) \<Rightarrow> 'f session
     \<Rightarrow> string \<Rightarrow> pyval list option \<Rightarrow> 'f session \<times> (http_exception + 'f feedback_entry)" where
  "post_analyze client env listing db body_text body_tags =
     (case FeedbackCreate listing body_text body_tags of
        Inl e \<Rightarrow> (db, Inl (HTTPException 422 ''Unprocessable Entity''))
      | Inr (text0, tags0) \<Rightarrow> analyze_feedback_route client env db text0 tags0)"

subsection \<open>\<open>FeedbackService.analyze_and_save_feedback\<close> (\<open>services/feedback_service.py\<close>)\<close>



subsection \<open>The client behind both flows, and values for examples\<close>

text \<open>
  \<open>analyze_feedback\<close> as the two flows call it. Were the list of models empty, the loop
  would return \<open>None\<close> and the subscript \<open>analysis["sentiment"]\<close> would raise a
  \<open>TypeError\<close> inside the \<open>try\<close>.
\<close>

definition ai_client :: "'f gateway \<Rightarrow> string \<Rightarrow> exn + 'f analysis" where
  "ai_client gw text0 =
     (case snd (analyze_feedback gw text0) of
        Inl e \<Rightarrow> Inl e
      | Inr None \<Rightarrow> Inl (OtherException ''NoneType object is not subscriptable'')
      | Inr (Some analysis) \<Rightarrow> Inr analysis)"


definition empty_session :: "real session" where
  "empty_session = \<lparr>committed = [], pending = [], ops = []\<rparr>"

definition test_env :: db_env where
  "test_env = \<lparr>commit_error = None, refresh_error = None,
                env_now = 1700000000, env_duration_ms = 1234\<rparr>"



section \<open>The list endpoint \<open>GET /api/feedback/\<close> (\<open>routers/feedback.py\<close>)\<close>







subsection \<open>An evaluation of the conditions, for examples\<close>




definition example_entry :: "int \<Rightarrow> string \<Rightarrow> string \<Rightarrow> string \<Rightarrow> int \<Rightarrow> real feedback_entry" where
  "example_entry i s c t created =
     \<lparr>entry_id = i, entry_text = t, entry_sentiment = s, entry_sentiment_confidence = 0.9,
      entry_category = c, entry_category_confidence = 0.8, entry_tags = [],
      entry_created_at = created, entry_analysis_duration_ms = 100,
      entry_model_used = ''qwen/qwen3-235b-a22b-07-25:free''\<rparr>"

definition example_table :: "real feedback_entry list" where
  "example_table =
     [example_entry 1 ''positive'' ''Delivery'' ''Arrived early'' 1704304800,
      example_entry 2 ''negative'' ''Delivery'' ''Parcel was lost'' 1704391200,
      example_entry 3 ''positive'' ''Pricing'' ''Good value'' 1704477600,
      example_entry 4 ''neutral'' ''Pricing'' ''It is fine'' 1704564000]"

section \<open>Analytics (\<open>services/analytics_service.py\<close>, \<open>routers/analytics.py\<close>)\<close>

subsection \<open>Dates\<close>

text \<open>
  A point in time is a number of seconds since 1970-01-01 00:00:00 UTC, as
  \<open>datetime.utcnow()\<close> and the column \<open>created_at\<close> hold it; \<open>timedelta(days=i)\<close> is
  \<open>86400 * i\<close> seconds. \<open>strftime('%Y-%m-%d')\<close> and SQL's \<open>date(...)\<close> give the
  calendar date of the day a time falls in, computed here from the number of the day
  (the proleptic Gregorian calendar, years 1 to 9999).
\<close>

definition digit :: "int \<Rightarrow> char" where
  "digit n = char_of (48 + n mod 10)"

definition civil_from_days :: "int \<Rightarrow> int \<times> int \<times> int" where
  "civil_from_days day =
     (let z = day + 719468;
          era = z div 146097;
          doe = z - era * 146097;
          yoe = (doe - doe div 1460 + doe div 36524 - doe div 146096) div 365;
          doy = doe - (365 * yoe + yoe div 4 - yoe div 100);
          mp = (5 * doy + 2) div 153;
          d = doy - (153 * mp + 2) div 5 + 1;
          m = (if mp < 10 then mp + 3 else mp - 9);
          y = yoe + era * 400 + (if m \<le> 2 then 1 else 0)
      in (y, m, d))"

definition strftime_ymd :: "int \<Rightarrow> string" where
  "strftime_ymd t =
     (case civil_from_days (t div 86400) of
        (y, m, d) \<Rightarrow>
          [digit (y div 1000), digit (y div 100), digit (y div 10), digit y, CHR ''-'',
           digit (m div 10), digit m, CHR ''-'', digit (d div 10), digit d])"

subsection \<open>The queries\<close>

text \<open>
  What the storage answers, as functions of the rows of the table. \<open>GROUP BY\<close> gives one
  row for each value of the key; where the statement has no \<open>ORDER BY\<close>, or the order
  leaves ties, the groups stand in the order of their first row.
\<close>

definition count_where :: "('r \<Rightarrow> bool) \<Rightarrow> 'r list \<Rightarrow> int" where
  "count_where p table = int (length (filter p table))"

definition sentiment_query :: "'f feedback_entry list \<Rightarrow> (string \<times> int) list" where
  "sentiment_query table =
     map (\<lambda>s. (s, count_where (\<lambda>e. entry_sentiment e = s) table))
       (remdups (map entry_sentiment table))"

text \<open>
  The arithmetic on floats is a parameter: \<open>fl_avg\<close> is SQL's \<open>avg\<close> on a non-empty list
  of floats, \<open>fl_round2\<close> is Python's \<open>round(x, 2)\<close> on a float, \<open>fl_is_zero\<close> tells
  whether a float is falsy (zero). \<open>avg\<close> of no value is \<open>NULL\<close>, Python's \<open>None\<close>.
\<close>

record 'f float_ops =
  fl_avg :: "'f list \<Rightarrow> 'f"
  fl_round2 :: "'f \<Rightarrow> 'f"
  fl_is_zero :: "'f \<Rightarrow> bool"

definition sql_avg :: "'f float_ops \<Rightarrow> 'f list \<Rightarrow> 'f option" where
  "sql_avg fl xs = (if xs = [] then None else Some (fl_avg fl xs))"

definition category_query ::
  "'f float_ops \<Rightarrow> 'f feedback_entry list \<Rightarrow> int \<Rightarrow> (string \<times> int \<times> 'f option) list" where
  "category_query fl table limit =
     take (nat limit)
       (sort_key (\<lambda>(c, n, a). - n)
          (map (\<lambda>c. (c, count_where (\<lambda>e. entry_category e = c) table,
                      sql_avg fl (map entry_category_confidence
                                    (filter (\<lambda>e. entry_category e = c) table))))
             (remdups (map entry_category table))))"

definition daily_query :: "'f feedback_entry list \<Rightarrow> int \<Rightarrow> (string \<times> int) list" where
  "daily_query table start_date =
     (let recent = filter (\<lambda>e. entry_created_at e \<ge> start_date) table
      in map (\<lambda>d. (strftime_ymd (d * 86400), count_where (\<lambda>e. entry_created_at e div 86400 = d) recent))
           (sort (remdups (map (\<lambda>e. entry_created_at e div 86400) recent))))"

definition confidence_query ::
  "'f float_ops \<Rightarrow> 'f feedback_entry list \<Rightarrow> 'f option \<times> 'f option \<times> 'f option \<times> 'f option" where
  "confidence_query fl table =
     (sql_avg fl (map entry_sentiment_confidence (filter (\<lambda>e. entry_sentiment e = ''positive'') table)),
      sql_avg fl (map entry_sentiment_confidence (filter (\<lambda>e. entry_sentiment e = ''neutral'') table)),
      sql_avg fl (map entry_sentiment_confidence (filter (\<lambda>e. entry_sentiment e = ''negative'') table)),
      sql_avg fl (map entry_category_confidence table))"

subsection \<open>Python numbers\<close>

text \<open>
  A number in a result is an \<open>int\<close> or a \<open>float\<close>. \<open>round(x, 2)\<close> of an \<open>int\<close> is that
  \<open>int\<close>. \<open>x or 0\<close> is \<open>0\<close> when \<open>x\<close> is \<open>None\<close> or a zero float.
\<close>

datatype 'f pynum = PInt int | PFloat 'f

definition py_round2 :: "'f float_ops \<Rightarrow> 'f pynum \<Rightarrow> 'f pynum" where
  "py_round2 fl x = (case x of PInt n \<Rightarrow> PInt n | PFloat y \<Rightarrow> PFloat (fl_round2 fl y))"

definition falsy :: "'f float_ops \<Rightarrow> 'f option \<Rightarrow> bool" where
  "falsy fl x = (case x of None \<Rightarrow> True | Some y \<Rightarrow> fl_is_zero fl y)"

definition or_zero :: "'f float_ops \<Rightarrow> 'f option \<Rightarrow> 'f pynum" where
  "or_zero fl x = (if falsy fl x then PInt 0 else PFloat (the x))"

definition round_if_else_zero :: "'f float_ops \<Rightarrow> 'f option \<Rightarrow> 'f pynum" where
  "round_if_else_zero fl x = (if \<not> falsy fl x then py_round2 fl (PFloat (the x)) else PInt 0)"

subsection \<open>\<open>AnalyticsService\<close>\<close>

definition get_total_feedback_count :: "'f feedback_entry list \<Rightarrow> int" where
  "get_total_feedback_count table = count_where (\<lambda>e. True) table"

definition zero_distribution :: "(string \<times> int) list" where
  "zero_distribution = [(''positive'', 0), (''neutral'', 0), (''negative'', 0)]"

fun distribution_loop :: "(string \<times> int) list \<Rightarrow> (string \<times> int) list \<Rightarrow> (string \<times> int) list" where
  "distribution_loop [] distribution = distribution"
| "distribution_loop ((s, n) # rows) distribution =
     (if s \<in> fst ` set distribution
      then distribution_loop rows (AList.update s n distribution)
      else distribution_loop rows distribution)"

definition get_sentiment_distribution :: "'f feedback_entry list \<Rightarrow> (string \<times> int) list" where
  "get_sentiment_distribution table = distribution_loop (sentiment_query table) zero_distribution"

record 'f category_row =
  cat_category :: string
  cat_count :: int
  cat_avg_confidence :: "'f pynum"

definition get_top_categories ::
  "'f float_ops \<Rightarrow> 'f feedback_entry list \<Rightarrow> int \<Rightarrow> 'f category_row list" where
  "get_top_categories fl table limit =
     map (\<lambda>(c, n, a). \<lparr>cat_category = c, cat_count = n,
                        cat_avg_confidence = round_if_else_zero fl a\<rparr>)
       (category_query fl table limit)"

fun activity_loop :: "(string \<times> int) list \<Rightarrow> (string \<times> int) list \<Rightarrow> (string \<times> int) list" where
  "activity_loop [] activity = activity"
| "activity_loop ((date_str, n) # rows) activity =
     activity_loop rows (AList.update date_str n activity)"

fun fill_loop :: "int \<Rightarrow> nat list \<Rightarrow> (string \<times> int) list \<Rightarrow> (string \<times> int) list" where
  "fill_loop now [] activity = activity"
| "fill_loop now (i # is) activity =
     (let date = strftime_ymd (now - 86400 * int i)
      in if date \<notin> fst ` set activity
         then fill_loop now is (AList.update date 0 activity)
         else fill_loop now is activity)"

text \<open>\<open>now\<close> is what \<open>datetime.utcnow()\<close> gives during the call.\<close>

definition get_recent_activity :: "'f feedback_entry list \<Rightarrow> int \<Rightarrow> int \<Rightarrow> (string \<times> int) list" where
  "get_recent_activity table now days =
     (let start_date = now - 86400 * days;
          rows = daily_query table start_date;
          activity = activity_loop rows []
      in fill_loop now [0..<nat days] activity)"

record 'f confidence_scores =
  sentiment_positive :: "'f pynum"
  sentiment_neutral :: "'f pynum"
  sentiment_negative :: "'f pynum"
  category_score :: "'f pynum"

definition get_average_confidence_scores ::
  "'f float_ops \<Rightarrow> 'f feedback_entry list \<Rightarrow> 'f confidence_scores" where
  "get_average_confidence_scores fl table =
     (case confidence_query fl table of
        (positive_confidence, neutral_confidence, negative_confidence, category_confidence) \<Rightarrow>
          \<lparr>sentiment_positive = py_round2 fl (or_zero fl positive_confidence),
           sentiment_neutral = py_round2 fl (or_zero fl neutral_confidence),
           sentiment_negative = py_round2 fl (or_zero fl negative_confidence),
           category_score = py_round2 fl (or_zero fl category_confidence)\<rparr>)"

subsection \<open>The route \<open>GET /api/stats\<close>\<close>

fun route_distribution_loop ::
  "(string \<times> int) list \<Rightarrow> (string \<times> int) list \<Rightarrow> (string \<times> int) list" where
  "route_distribution_loop [] sentiment_distribution = sentiment_distribution"
| "route_distribution_loop ((s, n) # rows) sentiment_distribution =
     route_distribution_loop rows (AList.update s n sentiment_distribution)"

record 'f stats_response =
  total_feedback :: int
  sentiment_distribution :: "(string \<times> int) list"
  top_categories :: "'f category_row list"
  recent_activity :: "(string \<times> int) list"
  average_confidence :: "'f confidence_scores"

definition get_statistics :: "'f float_ops \<Rightarrow> 'f feedback_entry list \<Rightarrow> int \<Rightarrow> 'f stats_response" where
  "get_statistics fl table now =
     (let total = count_where (\<lambda>e. True) table;
          distribution = route_distribution_loop (sentiment_query table) zero_distribution;
          categories = map (\<lambda>(c, n, a). \<lparr>cat_category = c, cat_count = n,
                                           cat_avg_confidence = round_if_else_zero fl a\<rparr>)
                         (category_query fl table 10);
          seven_days_ago = now - 86400 * 7;
          activity = fill_loop now [0..<7] (activity_loop (daily_query table seven_days_ago) []);
          confidence =
            (case confidence_query fl table of
               (positive_confidence, neutral_confidence, negative_confidence, category_confidence) \<Rightarrow>
                 \<lparr>sentiment_positive = round_if_else_zero fl positive_confidence,
                  sentiment_neutral = round_if_else_zero fl neutral_confidence,
                  sentiment_negative = round_if_else_zero fl negative_confidence,
                  category_score = round_if_else_zero fl category_confidence\<rparr>)
      in \<lparr>total_feedback = total,
          sentiment_distribution = distribution,
          top_categories = categories,
          recent_activity = activity,
          average_confidence = confidence\<rparr>)"

subsection \<open>Values for examples\<close>

definition real_ops :: "real float_ops" where
  "real_ops = \<lparr>fl_avg = (\<lambda>xs. sum_list xs / real (length xs)),
               fl_round2 = (\<lambda>x. real_of_int (round (x * 100)) / 100),
               fl_is_zero = (\<lambda>x. x = 0)\<rparr>"

section \<open>JSON extraction (\<open>OpenRouterClient._parse_json_response\<close>)\<close>

subsection \<open>Regular expressions, as \<open>re\<close> matches them\<close>

text \<open>
  The constructs the two patterns use: a character, \<open>.\<close> under \<open>DOTALL\<close>, \<open>\s\<close>,
  concatenation, \<open>?\<close>, the greedy \<open>*\<close> and the lazy \<open>*?\<close>. \<open>rx_match r s\<close> lists what is
  left of \<open>s\<close> after each way of matching \<open>r\<close> at its start, in the order in which the
  backtracking matcher tries them: a greedy operator tries one more repetition first, a
  lazy one tries to stop first.
\<close>

datatype rx = Eps | Chr char | Dot | Space | Seq rx rx | Opt rx | Star rx | LazyStar rx

function rx_match :: "rx \<Rightarrow> string \<Rightarrow> string list" where
  "rx_match Eps s = [s]"
| "rx_match (Chr c) s = (case s of [] \<Rightarrow> [] | x # t \<Rightarrow> if x = c then [t] else [])"
| "rx_match Dot s = (case s of [] \<Rightarrow> [] | x # t \<Rightarrow> [t])"
| "rx_match Space s = (case s of [] \<Rightarrow> [] | x # t \<Rightarrow> if py_isspace x then [t] else [])"
| "rx_match (Seq a b) s = concat (map (rx_match b) (rx_match a s))"
| "rx_match (Opt a) s = rx_match a s @ [s]"
| "rx_match (Star a) s =
     concat (map (rx_match (Star a)) (filter (\<lambda>t. length t < length s) (rx_match a s))) @ [s]"
| "rx_match (LazyStar a) s =
     s # concat (map (rx_match (LazyStar a)) (filter (\<lambda>t. length t < length s) (rx_match a s)))"
  by pat_completeness auto
termination
  by (relation "inv_image (less_than <*lex*> less_than) (\<lambda>(r, s). (size r, length s))") auto

text \<open>
  \<open>re.search\<close>: the first position at which the pattern matches, and there the first
  match the matcher finds. \<open>rx_search\<close> gives the text matched, \<open>rx_search_group\<close> the
  text of the one group of a pattern made of a part before the group, the group and a
  part after it.
\<close>

fun rx_search :: "rx \<Rightarrow> string \<Rightarrow> string option" where
  "rx_search r [] = (case rx_match r [] of [] \<Rightarrow> None | t # _ \<Rightarrow> Some [])"
| "rx_search r (x # s) =
     (case rx_match r (x # s) of
        [] \<Rightarrow> rx_search r s
      | t # _ \<Rightarrow> Some (take (length (x # s) - length t) (x # s)))"

definition rx_match_group :: "rx \<Rightarrow> rx \<Rightarrow> rx \<Rightarrow> string \<Rightarrow> string list" where
  "rx_match_group pre grp post s =
     concat (map (\<lambda>t1.
       concat (map (\<lambda>t2. map (\<lambda>t3. take (length t1 - length t2) t1) (rx_match post t2))
                   (rx_match grp t1)))
       (rx_match pre s))"

fun rx_search_group :: "rx \<Rightarrow> rx \<Rightarrow> rx \<Rightarrow> string \<Rightarrow> string option" where
  "rx_search_group pre grp post [] =
     (case rx_match_group pre grp post [] of [] \<Rightarrow> None | g # _ \<Rightarrow> Some g)"
| "rx_search_group pre grp post (x # s) =
     (case rx_match_group pre grp post (x # s) of
        [] \<Rightarrow> rx_search_group pre grp post s
      | g # _ \<Rightarrow> Some g)"

fun lit :: "string \<Rightarrow> rx" where
  "lit [] = Eps"
| "lit [c] = Chr c"
| "lit (c # cs) = Seq (Chr c) (lit cs)"

text \<open>The pattern \<open>\{.*\}\<close> and the three parts of \<open>```(?:json)?\s*(\{.*?\})\s*```\<close>.\<close>

definition brace_rx :: rx where
  "brace_rx = Seq (Chr CHR ''{'') (Seq (Star Dot) (Chr CHR ''}''))"

definition fence :: string where
  "fence = [CHR 0x60, CHR 0x60, CHR 0x60]"

definition block_pre :: rx where
  "block_pre = Seq (lit fence) (Seq (Opt (lit ''json'')) (Star Space))"

definition block_grp :: rx where
  "block_grp = Seq (Chr CHR ''{'') (Seq (LazyStar Dot) (Chr CHR ''}''))"

definition block_post :: rx where
  "block_post = Seq (Star Space) (lit fence)"

subsection \<open>The three stages\<close>

text \<open>
  \<open>loads\<close> is \<open>json.loads\<close>, which returns the value decoded, raises
  \<open>JSONDecodeError\<close>, or raises something else (a \<open>RecursionError\<close> on a text nested
  too deep, a \<open>ValueError\<close> on an integer of too many digits).
\<close>

datatype 'j loads_result = Decoded 'j | JSONDecodeError | Raised exn

text \<open>
  The block \<open>if match: try: return json.loads(...) except json.JSONDecodeError: pass\<close>.
  \<open>None\<close> is control going on to the next statement: there was no match, or the
  \<open>JSONDecodeError\<close> was passed. \<open>Some\<close> is control leaving the function, with the value
  returned or with the exception that no clause catches.
\<close>

definition try_loads :: "(string \<Rightarrow> 'j loads_result) \<Rightarrow> string option \<Rightarrow> (exn + 'j) option" where
  "try_loads loads m =
     (case m of
        None \<Rightarrow> None
      | Some t \<Rightarrow>
          (case loads t of
             Decoded v \<Rightarrow> Some (Inr v)
           | JSONDecodeError \<Rightarrow> None
           | Raised e \<Rightarrow> Some (Inl e)))"

definition parse_json_response :: "(string \<Rightarrow> 'j loads_result) \<Rightarrow> string \<Rightarrow> exn + 'j" where
  "parse_json_response loads content =
     (case loads content of
        Decoded v \<Rightarrow> Inr v
      | Raised e \<Rightarrow> Inl e
      | JSONDecodeError \<Rightarrow>
          (case try_loads loads (rx_search brace_rx content) of
             Some r \<Rightarrow> r
           | None \<Rightarrow>
               (case try_loads loads (rx_search_group block_pre block_grp block_post content) of
                  Some r \<Rightarrow> r
                | None \<Rightarrow>
                    Inl (AIServiceError
                      (''Invalid JSON response from AI: '' @ take 200 content @ ''...'')))))"

subsection \<open>What the two patterns find, said without patterns\<close>

text \<open>
  The span from the first \<open>{\<close> of a text to its last \<open>}\<close>, when there is a \<open>}\<close> after
  that \<open>{\<close>.
\<close>

definition brace_span :: "string \<Rightarrow> string option" where
  "brace_span s =
     (case dropWhile (\<lambda>c. c \<noteq> CHR ''{'') s of
        [] \<Rightarrow> None
      | b # r \<Rightarrow>
          if CHR ''}'' \<in> set r
          then Some (b # rev (dropWhile (\<lambda>c. c \<noteq> CHR ''}'') (rev r)))
          else None)"


text \<open>
  The interior of a fenced code block. A block opens with a fence of three backquotes,
  after which may come the tag \<open>json\<close> and then white space; its interior starts at the
  \<open>{\<close> that has to follow and ends at the first \<open>}\<close> that is followed, after white space
  or none, by a fence. \<open>close_at\<close> looks for that \<open>}\<close> in what follows the \<open>{\<close>,
  \<open>block_at\<close> reads a block that opens at the start of a text, and \<open>block_span\<close> is the
  interior of the first block of a text.
\<close>

definition strip_prefix :: "string \<Rightarrow> string \<Rightarrow> string option" where
  "strip_prefix p s = (if take (length p) s = p then Some (drop (length p) s) else None)"

fun close_at :: "string \<Rightarrow> string option" where
  "close_at [] = None"
| "close_at (c # cs) =
     (if c = CHR ''}'' \<and> take 3 (dropWhile py_isspace cs) = fence then Some [c]
      else map_option ((#) c) (close_at cs))"

definition block_at :: "string \<Rightarrow> string option" where
  "block_at s =
     (case strip_prefix fence s of
        None \<Rightarrow> None
      | Some t \<Rightarrow>
          (case dropWhile py_isspace
                  (case strip_prefix ''json'' t of Some t' \<Rightarrow> t' | None \<Rightarrow> t) of
             [] \<Rightarrow> None
           | b # body \<Rightarrow>
               if b = CHR ''{'' then map_option ((#) b) (close_at body) else None))"

fun block_span :: "string \<Rightarrow> string option" where
  "block_span [] = None"
| "block_span (x # s) =
     (case block_at (x # s) of Some g \<Rightarrow> Some g | None \<Rightarrow> block_span s)"

text \<open>The first element of a list, when there is one.\<close>

fun first_of :: "'a list \<Rightarrow> 'a option" where
  "first_of [] = None"
| "first_of (x # xs) = Some x"
subsection \<open>A JSON decoder, for examples\<close>

text \<open>
  Every statement about \<open>parse_json_response\<close> below holds for any \<open>loads\<close>. For
  examples that can be evaluated, \<open>json_loads\<close> decodes a JSON text as \<open>json.loads\<close>
  does: white space around the value, objects (a repeated key keeps its place and takes
  the last value, as in a \<open>dict\<close>), arrays, strings with their escapes, numbers (kept as
  written), \<open>true\<close>, \<open>false\<close>, \<open>null\<close> and the constants \<open>NaN\<close>, \<open>Infinity\<close> and
  \<open>-Infinity\<close>. A \<open>\u\<close> escape beyond the code points of \<open>char\<close> is not decoded.

  The decoder raises two exceptions that are no \<open>JSONDecodeError\<close>. Entering an object
  or an array when \<open>max_depth\<close> of them are open raises a \<open>RecursionError\<close>. An integer
  (a number with no fraction and no exponent) of more than \<open>int_max_str_digits\<close> digits
  raises a \<open>ValueError\<close>, unless that limit is 0, which switches it off. The message of
  the \<open>ValueError\<close> is cut to the words that all versions share.
  The first argument of the three parsing functions bounds the number of calls, the
  second is the number of objects and arrays that may still be entered.
\<close>

record limits =
  max_depth :: nat
  int_max_str_digits :: nat

text \<open>
  The defaults of the interpreter: \<open>sys.getrecursionlimit()\<close> is 1000, and the decoder
  starts some frames below it; \<open>sys.get_int_max_str_digits()\<close> is 4300.
\<close>

definition cpython_limits :: limits where
  "cpython_limits = \<lparr>max_depth = 1000, int_max_str_digits = 4300\<rparr>"

definition recursion_error :: "string \<Rightarrow> exn" where
  "recursion_error what =
     OtherException (''maximum recursion depth exceeded while decoding a JSON '' @ what
                     @ '' from a unicode string'')"

definition int_digits_error :: exn where
  "int_digits_error = OtherException ''Exceeds the limit for integer string conversion''"

datatype json =
  JNull | JBool bool | JNumber string | JString string
  | JArray "json list" | JObject "(string \<times> json) list"

definition json_ws :: "char \<Rightarrow> bool" where
  "json_ws c = (c = CHR '' '' \<or> c = CHR 0x09 \<or> c = CHR 0x0A \<or> c = CHR 0x0D)"

definition skip_ws :: "string \<Rightarrow> string" where
  "skip_ws s = dropWhile json_ws s"

definition is_digit :: "char \<Rightarrow> bool" where
  "is_digit c = (48 \<le> (of_char c :: nat) \<and> (of_char c :: nat) \<le> 57)"

definition hex_digit :: "char \<Rightarrow> nat option" where
  "hex_digit c =
     (let n = (of_char c :: nat)
      in if 48 \<le> n \<and> n \<le> 57 then Some (n - 48)
         else if 65 \<le> n \<and> n \<le> 70 then Some (n - 55)
         else if 97 \<le> n \<and> n \<le> 102 then Some (n - 87)
         else None)"

definition hex4 :: "string \<Rightarrow> nat option" where
  "hex4 s =
     (case map hex_digit (take 4 s) of
        [Some a, Some b, Some c, Some d] \<Rightarrow> Some (((a * 16 + b) * 16 + c) * 16 + d)
      | _ \<Rightarrow> None)"

definition unescape :: "char \<Rightarrow> char option" where
  "unescape e =
     (if e = CHR 0x22 \<or> e = CHR 0x5C \<or> e = CHR ''/'' then Some e
      else if e = CHR ''b'' then Some (CHR 0x08)
      else if e = CHR ''f'' then Some (CHR 0x0C)
      else if e = CHR ''n'' then Some (CHR 0x0A)
      else if e = CHR ''r'' then Some (CHR 0x0D)
      else if e = CHR ''t'' then Some (CHR 0x09)
      else None)"

text \<open>The characters of a string after its opening quote, up to the closing quote.\<close>

function scan_string :: "string \<Rightarrow> string \<Rightarrow> (string \<times> string) option" where
  "scan_string [] acc = None"
| "scan_string (c # s) acc =
     (if c = CHR 0x22 then Some (acc, s)
      else if c = CHR 0x5C then
        (case s of
           [] \<Rightarrow> None
         | e # s' \<Rightarrow>
             if e = CHR ''u'' then
               (case hex4 s' of
                  None \<Rightarrow> None
                | Some n \<Rightarrow> if n < 256 then scan_string (drop 4 s') (acc @ [char_of n]) else None)
             else (case unescape e of
                     None \<Rightarrow> None
                   | Some x \<Rightarrow> scan_string s' (acc @ [x])))
      else if (of_char c :: nat) < 32 then None
      else scan_string s (acc @ [c]))"
  by pat_completeness auto
termination
  by (relation "measure (length \<circ> fst)") auto

text \<open>A number: \<open>-?(0|[1-9]\d*)(\.\d+)?([eE][-+]?\d+)?\<close>, the longest such prefix.\<close>

definition scan_int :: "string \<Rightarrow> (string \<times> string) option" where
  "scan_int s =
     (case s of
        [] \<Rightarrow> None
      | c # r \<Rightarrow>
          if c = CHR ''0'' then Some ([c], r)
          else if is_digit c then Some (c # takeWhile is_digit r, dropWhile is_digit r)
          else None)"

definition scan_frac :: "string \<Rightarrow> string \<times> string" where
  "scan_frac s =
     (case s of
        [] \<Rightarrow> ([], s)
      | c # r \<Rightarrow>
          if c = CHR ''.'' \<and> takeWhile is_digit r \<noteq> []
          then (c # takeWhile is_digit r, dropWhile is_digit r)
          else ([], s))"

definition scan_exp :: "string \<Rightarrow> string \<times> string" where
  "scan_exp s =
     (case s of
        [] \<Rightarrow> ([], s)
      | c # r \<Rightarrow>
          if c = CHR ''e'' \<or> c = CHR ''E'' then
            (let (sg, r') = (case r of
                               [] \<Rightarrow> ([], r)
                             | x # r'' \<Rightarrow> if x = CHR ''-'' \<or> x = CHR ''+'' then ([x], r'') else ([], r))
             in if takeWhile is_digit r' \<noteq> []
                then (c # sg @ takeWhile is_digit r', dropWhile is_digit r')
                else ([], s))
          else ([], s))"

definition scan_number :: "string \<Rightarrow> (string \<times> string) option" where
  "scan_number s =
     (let (sg, r) = (case s of
                       [] \<Rightarrow> ([], s)
                     | c # r' \<Rightarrow> if c = CHR ''-'' then ([c], r') else ([], s))
      in case scan_int r of
           None \<Rightarrow> None
         | Some (i, r1) \<Rightarrow>
             (case scan_frac r1 of
                (f, r2) \<Rightarrow> (case scan_exp r2 of (e, r3) \<Rightarrow> Some (sg @ i @ f @ e, r3))))"

definition is_integer :: "string \<Rightarrow> bool" where
  "is_integer n = list_all (\<lambda>c. c = CHR ''-'' \<or> is_digit c) n"

definition number_value :: "limits \<Rightarrow> string \<Rightarrow> string \<Rightarrow> (json \<times> string) loads_result" where
  "number_value L n r =
     (if is_integer n \<and> 0 < int_max_str_digits L
         \<and> int_max_str_digits L < length (filter is_digit n)
      then Raised int_digits_error
      else Decoded (JNumber n, r))"

definition scan_constant :: "limits \<Rightarrow> string \<Rightarrow> (json \<times> string) loads_result" where
  "scan_constant L s =
     (case strip_prefix ''null'' s of Some r \<Rightarrow> Decoded (JNull, r) | None \<Rightarrow>
      case strip_prefix ''true'' s of Some r \<Rightarrow> Decoded (JBool True, r) | None \<Rightarrow>
      case strip_prefix ''false'' s of Some r \<Rightarrow> Decoded (JBool False, r) | None \<Rightarrow>
      case scan_number s of Some (n, r) \<Rightarrow> number_value L n r | None \<Rightarrow>
      case strip_prefix ''NaN'' s of Some r \<Rightarrow> Decoded (JNumber ''NaN'', r) | None \<Rightarrow>
      case strip_prefix ''Infinity'' s of Some r \<Rightarrow> Decoded (JNumber ''Infinity'', r) | None \<Rightarrow>
      case strip_prefix ''-Infinity'' s of Some r \<Rightarrow> Decoded (JNumber ''-Infinity'', r) | None \<Rightarrow>
      JSONDecodeError)"

fun parse_value :: "limits \<Rightarrow> nat \<Rightarrow> nat \<Rightarrow> string \<Rightarrow> (json \<times> string) loads_result"
  and parse_elements ::
    "limits \<Rightarrow> nat \<Rightarrow> nat \<Rightarrow> string \<Rightarrow> json list \<Rightarrow> (json list \<times> string) loads_result"
  and parse_members ::
    "limits \<Rightarrow> nat \<Rightarrow> nat \<Rightarrow> string \<Rightarrow> (string \<times> json) list
       \<Rightarrow> ((string \<times> json) list \<times> string) loads_result" where
  "parse_value L 0 d s = JSONDecodeError"
| "parse_value L (Suc n) d s =
     (case s of
        [] \<Rightarrow> JSONDecodeError
      | c # r \<Rightarrow>
          if c = CHR 0x22 then
            (case scan_string r [] of
               None \<Rightarrow> JSONDecodeError
             | Some (t, r') \<Rightarrow> Decoded (JString t, r'))
          else if c = CHR ''{'' then
            (case d of
               0 \<Rightarrow> Raised (recursion_error ''object'')
             | Suc d' \<Rightarrow>
                 (case skip_ws r of
                    [] \<Rightarrow> JSONDecodeError
                  | x # r' \<Rightarrow>
                      if x = CHR ''}'' then Decoded (JObject [], r')
                      else (case parse_members L n d' (x # r') [] of
                              Decoded (ms, r'') \<Rightarrow> Decoded (JObject ms, r'')
                            | JSONDecodeError \<Rightarrow> JSONDecodeError
                            | Raised e \<Rightarrow> Raised e)))
          else if c = CHR ''['' then
            (case d of
               0 \<Rightarrow> Raised (recursion_error ''array'')
             | Suc d' \<Rightarrow>
                 (case skip_ws r of
                    [] \<Rightarrow> JSONDecodeError
                  | x # r' \<Rightarrow>
                      if x = CHR '']'' then Decoded (JArray [], r')
                      else (case parse_elements L n d' (x # r') [] of
                              Decoded (vs, r'') \<Rightarrow> Decoded (JArray vs, r'')
                            | JSONDecodeError \<Rightarrow> JSONDecodeError
                            | Raised e \<Rightarrow> Raised e)))
          else scan_constant L s)"
| "parse_elements L 0 d s acc = JSONDecodeError"
| "parse_elements L (Suc n) d s acc =
     (case parse_value L n d s of
        JSONDecodeError \<Rightarrow> JSONDecodeError
      | Raised e \<Rightarrow> Raised e
      | Decoded (v, r) \<Rightarrow>
          (case skip_ws r of
             [] \<Rightarrow> JSONDecodeError
           | x # r' \<Rightarrow>
               if x = CHR '','' then parse_elements L n d (skip_ws r') (acc @ [v])
               else if x = CHR '']'' then Decoded (acc @ [v], r')
               else JSONDecodeError))"
| "parse_members L 0 d s acc = JSONDecodeError"
| "parse_members L (Suc n) d s acc =
     (case s of
        [] \<Rightarrow> JSONDecodeError
      | q # r \<Rightarrow>
          if q \<noteq> CHR 0x22 then JSONDecodeError
          else (case scan_string r [] of
                  None \<Rightarrow> JSONDecodeError
                | Some (k, r1) \<Rightarrow>
                    (case skip_ws r1 of
                       [] \<Rightarrow> JSONDecodeError
                     | x # r2 \<Rightarrow>
                         if x \<noteq> CHR '':'' then JSONDecodeError
                         else (case parse_value L n d (skip_ws r2) of
                                 JSONDecodeError \<Rightarrow> JSONDecodeError
                               | Raised e \<Rightarrow> Raised e
                               | Decoded (v, r3) \<Rightarrow>
                                   (case skip_ws r3 of
                                      [] \<Rightarrow> JSONDecodeError
                                    | y # r4 \<Rightarrow>
                                        if y = CHR '','' then
                                          parse_members L n d (skip_ws r4) (AList.update k v acc)
                                        else if y = CHR ''}'' then
                                          Decoded (AList.update k v acc, r4)
                                        else JSONDecodeError)))))"

definition json_loads :: "limits \<Rightarrow> string \<Rightarrow> json loads_result" where
  "json_loads L s =
     (case parse_value L (2 * length s + 2) (max_depth L) (skip_ws s) of
        JSONDecodeError \<Rightarrow> JSONDecodeError
      | Raised e \<Rightarrow> Raised e
      | Decoded (v, r) \<Rightarrow> if skip_ws r = [] then Decoded v else JSONDecodeError)"

text \<open>The three model outputs of the tests and the one that is no JSON.\<close>

definition key_value :: string where
  "key_value = ''{'' @ [CHR 0x22] @ ''key'' @ [CHR 0x22] @ '':''
                 @ [CHR 0x22] @ ''value'' @ [CHR 0x22] @ ''}''"

definition wrapped_in_text :: string where
  "wrapped_in_text = ''Here is the result: '' @ key_value @ '' Done.''"

definition in_code_block :: string where
  "in_code_block = fence @ ''json'' @ [CHR 0x0A] @ key_value @ [CHR 0x0A] @ fence"


text \<open>An output with an object and no fence, and two outputs that no stage decodes.\<close>

definition no_fence :: string where
  "no_fence = key_value @ '' {so}''"

definition deep_array :: string where
  "deep_array = replicate 100000 CHR ''[''"

definition long_integer :: string where
  "long_integer = replicate 5000 CHR ''7''"

definition block_then_braces :: string where
  "block_then_braces = in_code_block @ '' or {so}''"
section \<open>Pagination clamping\<close>

text \<open>
  Claim C3. For every pair of integers, \<open>validate_pagination\<close> returns the page
  unchanged when it is at least 1 and 1 otherwise, and the page size unchanged when it
  lies in 1..100, 20 when it is below 1 and 100 when it is above 100. In particular
  page 0 behaves as page 1, page size 0 as 20 and page size 500 as 100.
\<close>

theorem validate_pagination_clamps:
  "validate_pagination page page_size =
     (if 1 \<le> page then page else 1,
      if 1 \<le> page_size \<and> page_size \<le> 100 then page_size
      else if page_size < 1 then 20 else 100)
   \<and> validate_pagination 0 page_size = validate_pagination 1 page_size
   \<and> validate_pagination page 0 = validate_pagination page 20
   \<and> validate_pagination page 500 = validate_pagination page 100"
  by (simp add: validate_pagination_def)

theorem validate_pagination_clamps_witness:
  "validate_pagination 0 500 = (1, 100) \<and> validate_pagination 3 0 = (3, 20)"
  using validate_pagination_clamps [of 0 500] validate_pagination_clamps [of 3 0]
  by simp

section \<open>The tag cleaner\<close>

lemma clean_loop_eq:
  "clean_loop l acc = acc @ filter tag_ok (map py_strip (str_entries l))"
  by (induction l acc rule: clean_loop.induct) (auto simp: tag_ok_def Let_def)

lemma unique_loop_eq:
  "unique_loop xs seen acc = acc @ dedup_ci (filter (\<lambda>t. py_lower t \<notin> seen) xs)"
proof (induction xs arbitrary: seen acc)
  case Nil
  then show ?case by simp
next
  case (Cons tag rest)
  have f: "filter (\<lambda>t. py_lower t \<notin> insert (py_lower tag) seen) rest
         = filter (\<lambda>y. py_lower y \<noteq> py_lower tag) (filter (\<lambda>t. py_lower t \<notin> seen) rest)"
    by (induction rest) auto
  show ?case
    by (simp add: Cons.IH conj_commute)
qed

lemma validate_tags_eq:
  "validate_tags tags =
     take 10 (dedup_ci (filter tag_ok (map py_strip
        (str_entries (case tags of None \<Rightarrow> [] | Some l \<Rightarrow> l)))))"
  by (cases tags) (simp_all add: validate_tags_def clean_loop_eq unique_loop_eq)

lemma set_dedup_ci: "set (dedup_ci xs) \<subseteq> set xs"
  by (induction xs rule: dedup_ci.induct) auto

lemma distinct_dedup_ci: "distinct (map py_lower (dedup_ci xs))"
proof (induction xs rule: dedup_ci.induct)
  case 1
  then show ?case by simp
next
  case (2 x xs)
  have "py_lower x \<notin> py_lower ` set (dedup_ci (filter (\<lambda>y. py_lower y \<noteq> py_lower x) xs))"
    using set_dedup_ci [of "filter (\<lambda>y. py_lower y \<noteq> py_lower x) xs"] by auto
  with 2 show ?case by simp
qed

lemma dedup_ci_id: "distinct (map py_lower xs) \<Longrightarrow> dedup_ci xs = xs"
proof (induction xs)
  case Nil
  then show ?case by simp
next
  case (Cons x xs)
  from Cons.prems have "py_lower x \<notin> py_lower ` set xs" by simp
  then have "\<forall>y\<in>set xs. py_lower y \<noteq> py_lower x"
    by (metis imageI)
  then have "filter (\<lambda>y. py_lower y \<noteq> py_lower x) xs = xs"
    by (simp add: filter_id_conv)
  with Cons show ?case by simp
qed

lemma dropWhile_unchanged: "xs = [] \<or> \<not> P (hd xs) \<Longrightarrow> dropWhile P xs = xs"
  by (cases xs) auto

lemma py_strip_last: "py_strip s \<noteq> [] \<Longrightarrow> \<not> py_isspace (last (py_strip s))"
  by (simp add: py_strip_def last_rev hd_dropWhile)

lemma py_strip_hd: "py_strip s \<noteq> [] \<Longrightarrow> \<not> py_isspace (hd (py_strip s))"
proof -
  assume ne: "py_strip s \<noteq> []"
  define d where "d = dropWhile py_isspace s"
  define r where "r = dropWhile py_isspace (rev d)"
  have r: "r \<noteq> []" using ne by (simp add: py_strip_def r_def d_def)
  have "rev d = takeWhile py_isspace (rev d) @ r"
    by (simp add: r_def)
  then have "d = rev r @ rev (takeWhile py_isspace (rev d))"
    by (metis rev_append rev_rev_ident)
  then have hd: "hd d = hd (rev r)" and dne: "d \<noteq> []"
    using r by (metis hd_append2 rev_is_Nil_conv, metis append_is_Nil_conv rev_is_Nil_conv)
  from dne have "\<not> py_isspace (hd d)"
    unfolding d_def by (rule hd_dropWhile)
  then have "\<not> py_isspace (hd (rev r))" using hd by simp
  then show ?thesis
    by (simp add: py_strip_def r_def d_def)
qed

lemma py_strip_idem: "py_strip (py_strip s) = py_strip s"
proof (cases "py_strip s = []")
  case True
  have "py_strip [] = []" by (simp add: py_strip_def)
  then show ?thesis by (simp add: True)
next
  case False
  have a: "dropWhile py_isspace (py_strip s) = py_strip s"
    using False by (intro dropWhile_unchanged) (simp add: py_strip_hd)
  have b: "dropWhile py_isspace (rev (py_strip s)) = rev (py_strip s)"
    using False py_strip_last [of s] by (intro dropWhile_unchanged) (simp add: hd_rev)
  show ?thesis
    by (subst (1) py_strip_def) (simp add: a b)
qed

lemma validate_tags_elems:
  "t \<in> set (validate_tags tags) \<Longrightarrow> py_strip t = t \<and> tag_ok t"
proof -
  assume "t \<in> set (validate_tags tags)"
  then have "t \<in> set (filter tag_ok (map py_strip
        (str_entries (case tags of None \<Rightarrow> [] | Some l \<Rightarrow> l))))"
    unfolding validate_tags_eq using set_dedup_ci by (blast dest: in_set_takeD)
  then show ?thesis by (auto simp: py_strip_idem)
qed

lemma str_entries_PyStr: "str_entries (map PyStr xs) = xs"
  by (induction xs) auto

lemma validate_tags_length: "length (validate_tags tags) \<le> 10"
  unfolding validate_tags_eq by simp

lemma validate_tags_distinct: "distinct (map py_lower (validate_tags tags))"
  unfolding validate_tags_eq
  by (simp add: distinct_dedup_ci take_map [symmetric] distinct_take del: take_map)

lemma validate_tags_example:
  "validate_tags (Some [PyStr ''a'', PyStr ''A'', PyStr ''b'', PyStr ''b'']) = [''a'', ''b'']"
  by code_simp

text \<open>
  Claim C2. For every input list, \<open>validate_tags\<close> drops the entries that are not strings,
  trims each tag, drops the tags that are empty after trimming or longer than 50
  characters, de-duplicates case-insensitively keeping the first occurrence in its place,
  and truncates the result to at most 10 tags. So the result never has more than 10
  tags and no two of them agree after lower-casing; and
  \<open>validate_tags ["a", "A", "b", "b"] = ["a", "b"]\<close>.
\<close>

theorem validate_tags_cleans:
  "validate_tags tags =
     take 10 (dedup_ci (filter tag_ok (map py_strip
        (str_entries (case tags of None \<Rightarrow> [] | Some l \<Rightarrow> l)))))
   \<and> length (validate_tags tags) \<le> 10
   \<and> distinct (map py_lower (validate_tags tags))
   \<and> validate_tags (Some [PyStr ''a'', PyStr ''A'', PyStr ''b'', PyStr ''b'']) = [''a'', ''b'']"
  using validate_tags_eq validate_tags_length validate_tags_distinct validate_tags_example
  by blast

theorem validate_tags_cleans_witness:
  "validate_tags (Some [PyStr '' Bug '', PyInt 3, PyStr ''bug'', PyStr ''  '', PyNone, PyStr ''UI''])
     = [''Bug'', ''UI'']"
proof -
  have "take 10 (dedup_ci (filter tag_ok (map py_strip
          (str_entries [PyStr '' Bug '', PyInt 3, PyStr ''bug'', PyStr ''  '', PyNone, PyStr ''UI'']))))
        = [''Bug'', ''UI'']"
    by code_simp
  then show ?thesis
    using validate_tags_cleans
      [of "Some [PyStr '' Bug '', PyInt 3, PyStr ''bug'', PyStr ''  '', PyNone, PyStr ''UI'']"]
    by simp
qed

text \<open>
  Claim C10. The tag cleaner is idempotent: cleaning the list of tags it returned gives
  that list back, since every returned tag is already trimmed, non-empty and at most 50
  characters long, the returned tags are pairwise distinct after lower-casing, and there
  are at most 10 of them.
\<close>

theorem validate_tags_idempotent:
  "validate_tags (Some (map PyStr (validate_tags tags))) = validate_tags tags"
proof -
  let ?r = "validate_tags tags"
  have c: "filter tag_ok (map py_strip ?r) = ?r"
  proof -
    have "map py_strip ?r = ?r"
      by (rule map_idI) (simp add: validate_tags_elems)
    moreover have "filter tag_ok ?r = ?r"
      by (simp add: filter_id_conv validate_tags_elems)
    ultimately show ?thesis by simp
  qed
  have d: "dedup_ci ?r = ?r"
    using validate_tags_distinct by (rule dedup_ci_id)
  have "validate_tags (Some (map PyStr ?r)) = take 10 (dedup_ci (filter tag_ok (map py_strip ?r)))"
    by (subst validate_tags_eq) (simp add: str_entries_PyStr)
  also have "\<dots> = ?r"
    using validate_tags_length [of tags] by (simp add: c d)
  finally show ?thesis .
qed

theorem validate_tags_idempotent_witness:
  "validate_tags (Some (map PyStr (validate_tags (Some [PyStr '' x '', PyStr ''X'', PyStr ''y'']))))
     = [''x'', ''y'']"
proof -
  have "validate_tags (Some [PyStr '' x '', PyStr ''X'', PyStr ''y'']) = [''x'', ''y'']"
    by code_simp
  then show ?thesis
    using validate_tags_idempotent [of "Some [PyStr '' x '', PyStr ''X'', PyStr ''y'']"]
    by simp
qed

section \<open>Validation of the feedback text\<close>

lemma py_strip_replicate:
  assumes "\<not> py_isspace c" and "py_isspace s"
  shows "py_strip (replicate n c @ [s]) = replicate n c"
proof -
  have a: "dropWhile py_isspace (replicate n c @ [s]) = replicate n c @ [s]" if "n \<noteq> 0"
    using that assms by (cases n) auto
  have b: "dropWhile py_isspace (replicate n c) = replicate n c"
    using assms by (cases n) auto
  show ?thesis
  proof (cases "n = 0")
    case True
    then show ?thesis using assms by (simp add: py_strip_def)
  next
    case False
    then show ?thesis using assms by (simp add: py_strip_def a b)
  qed
qed

lemma length_py_strip: "length (py_strip v) \<le> length v"
proof -
  have "length (dropWhile py_isspace (rev (dropWhile py_isspace v))) \<le> length (rev (dropWhile py_isspace v))"
    by (rule length_dropWhile_le)
  also have "\<dots> \<le> length v" by (simp add: length_dropWhile_le)
  finally show ?thesis by (simp add: py_strip_def)
qed

lemma FeedbackCreate_text_cases:
  "FeedbackCreate_text v =
     (if 1 \<le> length v \<and> length v \<le> 5000 \<and> py_strip v \<noteq> [] then Inr (py_strip v)
      else if length v < 1 then Inl string_too_short
      else if length v > 5000 then Inl string_too_long
      else Inl (value_error ''Feedback text cannot be empty''))"
  by (auto simp: FeedbackCreate_text_def validate_text_def Suc_le_eq)

lemma FeedbackCreate_text_rejects:
  assumes "py_strip v = [] \<or> 5000 < length (py_strip v)"
  shows "isl (FeedbackCreate_text v)"
proof -
  have "\<not> (1 \<le> length v \<and> length v \<le> 5000 \<and> py_strip v \<noteq> [])"
    using assms length_py_strip [of v] by auto
  then show ?thesis
    by (subst FeedbackCreate_text_cases) simp
qed

lemma post_analyze_rejects:
  "isl (FeedbackCreate_text v) \<Longrightarrow>
     post_analyze client env listing db v body_tags =
       (db, Inl (HTTPException 422 ''Unprocessable Entity''))"
  by (auto simp: post_analyze_def FeedbackCreate_def split: sum.splits)

text \<open>
  The text cleaner of the validation utilities, which no route calls, does measure the
  trimmed text.
\<close>

lemma validate_feedback_text_rejects:
  "isl (validate_feedback_text t) = (py_strip t = [] \<or> 5000 < length (py_strip t))"
proof -
  have "py_strip [] = []" by (simp add: py_strip_def)
  then show ?thesis
    by (auto simp: validate_feedback_text_def Let_def)
qed

text \<open>
  Claim C1 says that \<open>FeedbackCreate\<close> accepts every text whose trimmed form has 1 to
  5000 characters. The length constraints of the field are on the text as it was sent:
  5000 letters followed by one space have a trimmed form of 5000 characters and are
  rejected as too long.
\<close>

theorem FeedbackCreate_text_padded_rejected:
  "length (py_strip (replicate 5000 CHR ''x'' @ '' '')) = 5000
   \<and> FeedbackCreate_text (replicate 5000 CHR ''x'' @ '' '') = Inl string_too_long"
proof -
  have "\<not> py_isspace CHR ''x''" "py_isspace CHR '' ''" by (simp_all add: py_isspace_def)
  then have "py_strip (replicate 5000 CHR ''x'' @ '' '') = replicate 5000 CHR ''x''"
    by (rule py_strip_replicate)
  then show ?thesis by (simp add: FeedbackCreate_text_def)
qed

text \<open>
  Claim C1, amended. \<open>FeedbackCreate\<close> accepts a text exactly when the text as sent has
  1 to 5000 characters and is not empty after trimming; the accepted value is the
  trimmed text, of 1 to 5000 characters. Every text that is empty or whitespace-only
  after trimming, or whose trimmed form exceeds 5000 characters, is rejected, and the
  endpoint answers a rejected text with 422 and leaves the storage as it was.
\<close>

theorem FeedbackCreate_text_accepts:
  "FeedbackCreate_text v =
     (if 1 \<le> length v \<and> length v \<le> 5000 \<and> py_strip v \<noteq> [] then Inr (py_strip v)
      else if length v < 1 then Inl string_too_short
      else if length v > 5000 then Inl string_too_long
      else Inl (value_error ''Feedback text cannot be empty''))
   \<and> (FeedbackCreate_text v = Inr t \<longrightarrow> t = py_strip v \<and> 1 \<le> length t \<and> length t \<le> 5000)
   \<and> (py_strip v = [] \<or> 5000 < length (py_strip v) \<longrightarrow> isl (FeedbackCreate_text v))
   \<and> (isl (FeedbackCreate_text v) \<longrightarrow>
        post_analyze client env listing db v body_tags =
          (db, Inl (HTTPException 422 ''Unprocessable Entity'')))"
proof -
  have "t = py_strip v \<and> 1 \<le> length t \<and> length t \<le> 5000" if "FeedbackCreate_text v = Inr t"
  proof -
    from that have a: "1 \<le> length v \<and> length v \<le> 5000 \<and> py_strip v \<noteq> []" and t: "t = py_strip v"
      by (auto simp: FeedbackCreate_text_cases split: if_splits)
    from a t have "length t \<le> 5000" using length_py_strip [of v] by simp
    moreover from a t have "1 \<le> length t" by (simp add: Suc_le_eq)
    ultimately show ?thesis using t by simp
  qed
  then show ?thesis
    using FeedbackCreate_text_cases [of v] FeedbackCreate_text_rejects [of v]
      post_analyze_rejects [of v client env listing db body_tags]
    by blast
qed

theorem FeedbackCreate_text_accepts_witness:
  "FeedbackCreate_text '' Great product! '' = Inr ''Great product!''
   \<and> FeedbackCreate_text '' '' = Inl (value_error ''Feedback text cannot be empty'')
   \<and> post_analyze (ai_client test_gateway) test_env sorted_list_of_set empty_session '' '' None
        = (empty_session, Inl (HTTPException 422 ''Unprocessable Entity''))"
proof -
  have s1: "py_strip '' Great product! '' = ''Great product!''" by code_simp
  have s2: "py_strip '' '' = []" by code_simp
  show ?thesis
    using
      FeedbackCreate_text_accepts
        [of "'' Great product! ''" "''Great product!''" "ai_client test_gateway" test_env
            sorted_list_of_set empty_session None]
      FeedbackCreate_text_accepts
        [of "'' ''" "[]" "ai_client test_gateway" test_env sorted_list_of_set empty_session None]
    by (simp add: s1 s2)
qed

section \<open>Model fallback of the AI gateway client\<close>

lemma analyze_loop_spec:
  "distinct (pre @ rest) \<Longrightarrow> rest \<noteq> [] \<Longrightarrow>
   analyze_loop (pre @ rest) gw text0 rest tried =
     (case dropWhile (\<lambda>m. isl (gw m text0)) rest of
        [] \<Rightarrow> (tried @ rest,
               Inl (AIServiceError (''All models failed. Last error: ''
                      @ str_exn (projl (gw (last rest) text0)))))
      | m # later \<Rightarrow>
          (tried @ takeWhile (\<lambda>m. isl (gw m text0)) rest @ [m],
           Inr (Some (combined_result (fst (projr (gw m text0))) (snd (projr (gw m text0))) m))))"
proof (induction rest arbitrary: pre tried)
  case Nil
  then show ?case by simp
next
  case (Cons model rest)
  show ?case
  proof (cases "gw model text0")
    case (Inr r)
    then show ?thesis by (cases r) simp
  next
    case (Inl e)
    show ?thesis
    proof (cases "rest = []")
      case True
      then show ?thesis using Inl by simp
    next
      case False
      have ne: "model \<noteq> last (pre @ model # rest)"
        using Cons.prems(1) False by auto
      have step: "analyze_loop (pre @ model # rest) gw text0 (model # rest) tried =
                  analyze_loop ((pre @ [model]) @ rest) gw text0 rest (tried @ [model])"
        using Inl ne by simp
      have d: "distinct ((pre @ [model]) @ rest)"
        using Cons.prems(1) by simp
      have f: "isl (gw model text0)" using Inl by simp
      consider (none) "dropWhile (\<lambda>m. isl (gw m text0)) rest = []"
        | (some) m later where "dropWhile (\<lambda>m. isl (gw m text0)) rest = m # later"
        by (cases "dropWhile (\<lambda>m. isl (gw m text0)) rest") blast+
      then show ?thesis
      proof cases
        case none
        show ?thesis
          unfolding step Cons.IH [OF d False]
          using f False by (simp add: none del: dropWhile_eq_Nil_conv)
      next
        case some
        show ?thesis
          unfolding step Cons.IH [OF d False]
          using f False by (simp add: some)
      qed
    qed
  qed
qed

lemma analyze_feedback_models_spec:
  assumes "distinct ms" and "ms \<noteq> []"
  shows "analyze_feedback_models ms gw text0 =
     (case dropWhile (\<lambda>m. isl (gw m text0)) ms of
        [] \<Rightarrow> (ms,
               Inl (AIServiceError (''All models failed. Last error: ''
                      @ str_exn (projl (gw (last ms) text0)))))
      | m # later \<Rightarrow>
          (takeWhile (\<lambda>m. isl (gw m text0)) ms @ [m],
           Inr (Some (combined_result (fst (projr (gw m text0))) (snd (projr (gw m text0))) m))))"
proof -
  have "distinct ([] @ ms)" using assms(1) by simp
  from analyze_loop_spec [OF this assms(2), of gw text0 "[]"] show ?thesis
    unfolding analyze_feedback_models_def append_Nil .
qed

lemma analyze_feedback_shipped:
  "analyze_feedback gw text0 =
     (case gw ''qwen/qwen3-235b-a22b-07-25:free'' text0 of
        Inl e \<Rightarrow> ([''qwen/qwen3-235b-a22b-07-25:free''],
                  Inl (AIServiceError (''All models failed. Last error: '' @ str_exn e)))
      | Inr r \<Rightarrow> ([''qwen/qwen3-235b-a22b-07-25:free''],
                  Inr (Some (combined_result (fst r) (snd r) ''qwen/qwen3-235b-a22b-07-25:free''))))"
  by (simp add: analyze_feedback_def analyze_feedback_models_def models_def split: sum.split)

text \<open>
  Claim C5. \<open>analyze_feedback\<close> tries the models of the fallback list strictly in order.
  When the pair of calls of a model raises, the next model is tried; when every model
  failed, the client raises an \<open>AIServiceError\<close> whose message is
  \<open>All models failed. Last error: \<close> followed by the error of the last model. When the
  pair of a model succeeds, the combined result carries that model as \<open>model_used\<close>, and
  the models called are exactly the failed ones before it and that model: no later model
  is tried. This holds for every list of distinct models, and in particular for the one
  model of the shipped list.
\<close>

theorem analyze_feedback_fallback:
  assumes "distinct ms" and "ms \<noteq> []"
  shows "analyze_feedback_models ms gw text0 =
     (case dropWhile (\<lambda>m. isl (gw m text0)) ms of
        [] \<Rightarrow> (ms,
               Inl (AIServiceError (''All models failed. Last error: ''
                      @ str_exn (projl (gw (last ms) text0)))))
      | m # later \<Rightarrow>
          (takeWhile (\<lambda>m. isl (gw m text0)) ms @ [m],
           Inr (Some (combined_result (fst (projr (gw m text0))) (snd (projr (gw m text0))) m))))
   \<and> analyze_feedback gw text0 =
     (case gw ''qwen/qwen3-235b-a22b-07-25:free'' text0 of
        Inl e \<Rightarrow> ([''qwen/qwen3-235b-a22b-07-25:free''],
                  Inl (AIServiceError (''All models failed. Last error: '' @ str_exn e)))
      | Inr r \<Rightarrow> ([''qwen/qwen3-235b-a22b-07-25:free''],
                  Inr (Some (combined_result (fst r) (snd r) ''qwen/qwen3-235b-a22b-07-25:free''))))"
  using analyze_feedback_models_spec [OF assms, of gw text0] analyze_feedback_shipped [of gw text0]
  by (rule conjI)

theorem analyze_feedback_fallback_witness:
  "analyze_feedback_models [''openai/gpt-3.5-turbo'', ''meta-llama/llama-3.1-8b-instruct:free'']
      test_gateway ''Bad service!''
     = ([''openai/gpt-3.5-turbo'', ''meta-llama/llama-3.1-8b-instruct:free''],
        Inr (Some \<lparr>an_sentiment = ''negative'', an_sentiment_confidence = 0.85,
                   an_category = ''Customer Service'', an_category_confidence = 0.75,
                   an_model_used = ''meta-llama/llama-3.1-8b-instruct:free''\<rparr>))
   \<and> analyze_feedback_models [''openai/gpt-3.5-turbo''] test_gateway ''Bad service!''
     = ([''openai/gpt-3.5-turbo''],
        Inl (AIServiceError
          ''All models failed. Last error: Rate limit exceeded. Please try again later.''))"
  using
    analyze_feedback_fallback
      [of "[''openai/gpt-3.5-turbo'', ''meta-llama/llama-3.1-8b-instruct:free'']"
          test_gateway "''Bad service!''"]
    analyze_feedback_fallback [of "[''openai/gpt-3.5-turbo'']" test_gateway "''Bad service!''"]
  by (simp add: test_gateway_def combined_result_def str_exn_def)

section \<open>Rollback of a failed classify-and-save\<close>














section \<open>Filters of the list endpoint\<close>










section \<open>Analytics: the route against the service\<close>

lemma distribution_loops_agree:
  "fst ` set rows \<subseteq> fst ` set distribution \<Longrightarrow>
     route_distribution_loop rows distribution = distribution_loop rows distribution"
proof (induction rows distribution rule: distribution_loop.induct)
  case (1 distribution)
  then show ?case by simp
next
  case (2 s n rows distribution)
  have k: "fst ` set (AList.update s n distribution) = fst ` set distribution"
    using "2.prems" by (auto simp: dom_update)
  show ?case
    using "2.prems" "2.IH"(1) k by simp
qed

lemma sentiment_query_keys:
  "fst ` set (sentiment_query table) = entry_sentiment ` set table"
  by (force simp: sentiment_query_def)

lemma round_forms_agree: "round_if_else_zero fl x = py_round2 fl (or_zero fl x)"
  by (simp add: round_if_else_zero_def or_zero_def py_round2_def)

lemma stats_route_recent_activity:
  "recent_activity (get_statistics fl table now) = get_recent_activity table now 7"
  by (simp add: get_statistics_def get_recent_activity_def Let_def)

text \<open>
  Claim C9. On every table whose rows have one of the three sentiments, the aggregation
  written out in the route \<open>GET /api/stats\<close> and the operations of \<open>AnalyticsService\<close>
  give the same total count, the same sentiment distribution (seeded with zero for the
  three sentiments), the same top ten categories with their rounded average confidence
  and the same average confidence scores. This holds whatever the arithmetic of the
  floats is; the range of the confidences plays no part.
\<close>

theorem stats_route_refines_service:
  assumes "\<forall>e \<in> set table. entry_sentiment e \<in> set valid_sentiments"
  shows "total_feedback (get_statistics fl table now) = get_total_feedback_count table
     \<and> sentiment_distribution (get_statistics fl table now) = get_sentiment_distribution table
     \<and> top_categories (get_statistics fl table now) = get_top_categories fl table 10
     \<and> average_confidence (get_statistics fl table now) = get_average_confidence_scores fl table"
proof -
  have "fst ` set (sentiment_query table) \<subseteq> fst ` set zero_distribution"
    using assms unfolding sentiment_query_keys
    by (auto simp: zero_distribution_def valid_sentiments_def)
  then have d: "route_distribution_loop (sentiment_query table) zero_distribution
        = distribution_loop (sentiment_query table) zero_distribution"
    by (rule distribution_loops_agree)
  show ?thesis
    by (simp add: get_statistics_def Let_def get_total_feedback_count_def
        get_sentiment_distribution_def d get_top_categories_def
        get_average_confidence_scores_def round_forms_agree split: prod.splits)
qed

theorem stats_route_refines_service_witness:
  "total_feedback (get_statistics real_ops example_table 1704898800)
      = get_total_feedback_count example_table
   \<and> sentiment_distribution (get_statistics real_ops example_table 1704898800)
      = get_sentiment_distribution example_table
   \<and> top_categories (get_statistics real_ops example_table 1704898800)
      = get_top_categories real_ops example_table 10
   \<and> average_confidence (get_statistics real_ops example_table 1704898800)
      = get_average_confidence_scores real_ops example_table
   \<and> get_sentiment_distribution example_table
      = [(''positive'', 2), (''neutral'', 1), (''negative'', 1)]"
proof -
  have v: "\<forall>e \<in> set example_table. entry_sentiment e \<in> set valid_sentiments"
    by (simp add: example_table_def example_entry_def valid_sentiments_def)
  have "get_sentiment_distribution example_table
      = [(''positive'', 2), (''neutral'', 1), (''negative'', 1)]"
    by code_simp
  then show ?thesis
    using stats_route_refines_service [OF v, of real_ops 1704898800] by simp
qed

section \<open>Recent activity\<close>

text \<open>
  Claim C8 says that the map of \<open>get_recent_activity\<close> has exactly \<open>days\<close> keys. The query
  takes the rows created in the last \<open>days\<close> times 24 hours, the loop fills in \<open>days\<close>
  calendar dates ending today: a row created on the calendar date \<open>days\<close> days back, later
  in the day than the call, adds a key of its own. Called on 2024-01-10 at 15:00 with
  \<open>days = 7\<close> and one row created on 2024-01-03 at 18:00, the map has eight keys.
\<close>

theorem get_recent_activity_eight_keys:
  "get_recent_activity
       [example_entry 1 ''positive'' ''Delivery'' ''Arrived early'' 1704304800] 1704898800 7
     = [(''2024-01-03'', 1), (''2024-01-10'', 0), (''2024-01-09'', 0), (''2024-01-08'', 0),
        (''2024-01-07'', 0), (''2024-01-06'', 0), (''2024-01-05'', 0), (''2024-01-04'', 0)]"
  by code_simp

section \<open>JSON extraction\<close>

lemma star_dot_Cons: "rx_match (Star Dot) (x # t) = rx_match (Star Dot) t @ [x # t]"
  by simp

lemma to_last_brace_Nil:
  "rx_match (Seq (Star Dot) (Chr CHR ''}'')) [] = []"
  by simp

lemma to_last_brace_Cons:
  "rx_match (Seq (Star Dot) (Chr CHR ''}'')) (x # t) =
     rx_match (Seq (Star Dot) (Chr CHR ''}'')) t @ (if x = CHR ''}'' then [t] else [])"
  by simp

declare rx_match.simps [simp del]

lemma to_last_brace_empty:
  "CHR ''}'' \<notin> set s \<Longrightarrow> rx_match (Seq (Star Dot) (Chr CHR ''}'')) s = []"
  by (induction s) (auto simp: to_last_brace_Nil to_last_brace_Cons)

lemma to_last_brace_first:
  "CHR ''}'' \<in> set s \<Longrightarrow>
     \<exists>t rest. rx_match (Seq (Star Dot) (Chr CHR ''}'')) s = t # rest
       \<and> rev (dropWhile (\<lambda>c. c \<noteq> CHR ''}'') (rev s)) @ t = s"
proof (induction s)
  case Nil
  then show ?case by simp
next
  case (Cons x s)
  show ?case
  proof (cases "CHR ''}'' \<in> set s")
    case True
    then obtain t rest where m: "rx_match (Seq (Star Dot) (Chr CHR ''}'')) s = t # rest"
      and s: "rev (dropWhile (\<lambda>c. c \<noteq> CHR ''}'') (rev s)) @ t = s"
      using Cons.IH by blast
    have "CHR ''}'' \<in> set (rev s)" using True by simp
    then have d: "dropWhile (\<lambda>c. c \<noteq> CHR ''}'') (rev s @ [x])
        = dropWhile (\<lambda>c. c \<noteq> CHR ''}'') (rev s) @ [x]"
      by (rule dropWhile_append1) simp
    have k: "rev (dropWhile (\<lambda>c. c \<noteq> CHR ''}'') (rev (x # s))) @ t = x # s"
      by (simp add: d s)
    have "rx_match (Seq (Star Dot) (Chr CHR ''}'')) (x # s)
        = t # (rest @ (if x = CHR ''}'' then [s] else []))"
      unfolding to_last_brace_Cons m by simp
    with k show ?thesis by blast
  next
    case False
    then have x: "x = CHR ''}''" using Cons.prems by simp
    have e: "rx_match (Seq (Star Dot) (Chr CHR ''}'')) s = []"
      using False by (rule to_last_brace_empty)
    have "\<And>y. y \<in> set (rev s) \<Longrightarrow> y \<noteq> CHR ''}''" using False by auto
    then have d: "dropWhile (\<lambda>c. c \<noteq> CHR ''}'') (rev s @ [CHR ''}''])
        = dropWhile (\<lambda>c. c \<noteq> CHR ''}'') [CHR ''}'']"
      by (rule dropWhile_append2)
    have k: "rev (dropWhile (\<lambda>c. c \<noteq> CHR ''}'') (rev (x # s))) @ s = x # s"
      unfolding x by (simp add: d)
    have "rx_match (Seq (Star Dot) (Chr CHR ''}'')) (x # s) = [s]"
      unfolding to_last_brace_Cons e x by simp
    with k show ?thesis by blast
  qed
qed

lemma brace_rx_match:
  "rx_match brace_rx s =
     (case s of [] \<Rightarrow> []
      | x # t \<Rightarrow> if x = CHR ''{'' then rx_match (Seq (Star Dot) (Chr CHR ''}'')) t else [])"
  by (cases s) (simp_all add: brace_rx_def rx_match.simps(2,5))

lemma brace_search_none:
  "CHR ''}'' \<notin> set s \<Longrightarrow> rx_search brace_rx s = None"
  by (induction s) (simp_all add: brace_rx_match to_last_brace_empty)

lemma take_all_but: "k @ t = s \<Longrightarrow> take (Suc (length s) - length t) (x # s) = x # k"
proof -
  assume e: "k @ t = s"
  have "Suc (length s) - length t = Suc (length k)"
    unfolding e [symmetric] by simp
  then show ?thesis
    unfolding e [symmetric] by simp
qed

lemma brace_search_span: "rx_search brace_rx s = brace_span s"
proof (induction s)
  case Nil
  then show ?case by (simp add: brace_rx_match brace_span_def)
next
  case (Cons x s)
  show ?case
  proof (cases "x = CHR ''{''")
    case False
    then show ?thesis
      using Cons.IH by (simp add: brace_rx_match brace_span_def)
  next
    case True
    show ?thesis
    proof (cases "CHR ''}'' \<in> set s")
      case no: False
      then show ?thesis
        using True by (simp add: brace_rx_match brace_span_def to_last_brace_empty brace_search_none)
    next
      case yes: True
      then obtain t rest where m: "rx_match (Seq (Star Dot) (Chr CHR ''}'')) s = t # rest"
        and s: "rev (dropWhile (\<lambda>c. c \<noteq> CHR ''}'') (rev s)) @ t = s"
        using to_last_brace_first by blast
      have "take (Suc (length s) - length t) (x # s)
          = x # rev (dropWhile (\<lambda>c. c \<noteq> CHR ''}'') (rev s))"
        using s by (rule take_all_but)
      then show ?thesis
        using True yes by (simp add: brace_rx_match brace_span_def m)
    qed
  qed
qed

declare rx_search.simps [simp del] rx_search_group.simps [simp del]

subsection \<open>The code block pattern finds the interior of the first fenced block\<close>

lemma first_of_case: "(case xs of [] \<Rightarrow> None | g # _ \<Rightarrow> Some g) = first_of xs"
  by (cases xs) simp_all

lemma first_of_append:
  "first_of (xs @ ys) = (case first_of xs of None \<Rightarrow> first_of ys | Some x \<Rightarrow> Some x)"
  by (cases xs) simp_all

lemma lit_match:
  "rx_match (lit p) s = (if take (length p) s = p then [drop (length p) s] else [])"
proof (induction p arbitrary: s rule: lit.induct)
  case 1
  then show ?case by (simp add: rx_match.simps(1))
next
  case (2 c)
  then show ?case by (cases s) (auto simp: rx_match.simps(2))
next
  case (3 c v va)
  then show ?case by (cases s) (auto simp: rx_match.simps(2,5))
qed

lemma star_space_Nil: "rx_match (Star Space) [] = [[]]"
  by (subst rx_match.simps(7)) (simp add: rx_match.simps(4))

lemma star_space_Cons:
  "rx_match (Star Space) (x # t) =
     (if py_isspace x then rx_match (Star Space) t @ [x # t] else [x # t])"
  by (subst rx_match.simps(7)) (simp add: rx_match.simps(4))

lemma star_space_then:
  assumes "\<And>t. t \<noteq> [] \<Longrightarrow> py_isspace (hd t) \<Longrightarrow> f t = []"
  shows "concat (map f (rx_match (Star Space) s)) = f (dropWhile py_isspace s)"
proof (induction s)
  case Nil
  then show ?case by (simp add: star_space_Nil)
next
  case (Cons x t)
  show ?case
  proof (cases "py_isspace x")
    case True
    then have "f (x # t) = []" using assms [of "x # t"] by simp
    then show ?thesis using True Cons.IH by (simp add: star_space_Cons)
  next
    case False
    then show ?thesis by (simp add: star_space_Cons)
  qed
qed

lemma lazy_dot_Nil: "rx_match (LazyStar Dot) [] = [[]]"
  by (subst rx_match.simps(8)) (simp add: rx_match.simps(3))

lemma lazy_dot_Cons: "rx_match (LazyStar Dot) (x # t) = (x # t) # rx_match (LazyStar Dot) t"
  by (subst rx_match.simps(8)) (simp add: rx_match.simps(3))

lemma fence_no_space: "t \<noteq> [] \<Longrightarrow> py_isspace (hd t) \<Longrightarrow> take 3 t \<noteq> fence"
proof
  assume t: "t \<noteq> []" and sp: "py_isspace (hd t)" and f: "take 3 t = fence"
  have "hd (take 3 t) = hd t" using t by (cases t) simp_all
  then have "hd t = CHR 0x60" using f by (simp add: fence_def)
  moreover have "\<not> py_isspace (CHR 0x60)" by code_simp
  ultimately show False using sp by simp
qed

lemma block_post_match:
  "rx_match block_post t =
     (if take 3 (dropWhile py_isspace t) = fence then [drop 3 (dropWhile py_isspace t)] else [])"
proof -
  have l: "length fence = 3" by (simp add: fence_def)
  have "rx_match block_post t = concat (map (rx_match (lit fence)) (rx_match (Star Space) t))"
    by (simp add: block_post_def rx_match.simps(5))
  also have "\<dots> = rx_match (lit fence) (dropWhile py_isspace t)"
    by (rule star_space_then) (simp add: lit_match l fence_no_space)
  finally show ?thesis by (simp add: lit_match l)
qed

lemma block_grp_match:
  "rx_match block_grp u =
     (case u of
        [] \<Rightarrow> []
      | b # body \<Rightarrow>
          if b = CHR ''{''
          then concat (map (rx_match (Chr CHR ''}'')) (rx_match (LazyStar Dot) body))
          else [])"
  by (cases u) (simp_all add: block_grp_def rx_match.simps(2,5))

lemma group_close:
  "first_of (concat (map (\<lambda>t2. map (\<lambda>t3. take (length (pre @ body) - length t2) (pre @ body))
                                  (rx_match block_post t2))
                      (concat (map (rx_match (Chr CHR ''}'')) (rx_match (LazyStar Dot) body)))))
     = map_option ((@) pre) (close_at body)"
proof (induction body arbitrary: pre)
  case Nil
  then show ?case by (simp add: lazy_dot_Nil rx_match.simps(2))
next
  case (Cons c cs)
  define F where
    "F = (\<lambda>t2. map (\<lambda>t3. take (length (pre @ c # cs) - length t2) (pre @ c # cs))
                     (rx_match block_post t2))"
  define rest where
    "rest = concat (map (rx_match (Chr CHR ''}'')) (rx_match (LazyStar Dot) cs))"
  have ih: "first_of (concat (map F rest)) = map_option (\<lambda>g. pre @ c # g) (close_at cs)"
    unfolding F_def rest_def using Cons.IH [of "pre @ [c]"] by simp
  have split: "concat (map (rx_match (Chr CHR ''}'')) (rx_match (LazyStar Dot) (c # cs)))
      = (if c = CHR ''}'' then [cs] else []) @ rest"
    unfolding rest_def by (simp add: lazy_dot_Cons rx_match.simps(2))
  have here: "F cs = (if take 3 (dropWhile py_isspace cs) = fence then [pre @ [c]] else [])"
    unfolding F_def by (simp add: block_post_match)
  have "first_of (concat (map F ((if c = CHR ''}'' then [cs] else []) @ rest)))
      = map_option ((@) pre) (close_at (c # cs))"
    by (simp add: first_of_append ih here option.map_comp comp_def)
  then show ?case
    unfolding split F_def .
qed

lemma block_group_at:
  "first_of (concat (map (\<lambda>t2. map (\<lambda>t3. take (length u - length t2) u) (rx_match block_post t2))
                      (rx_match block_grp u)))
     = (case u of
          [] \<Rightarrow> None
        | b # body \<Rightarrow> if b = CHR ''{'' then map_option ((#) b) (close_at body) else None)"
proof (cases u)
  case Nil
  then show ?thesis by (simp add: block_grp_match)
next
  case (Cons b body)
  show ?thesis
  proof (cases "b = CHR ''{''")
    case False
    then show ?thesis using Cons by (simp add: block_grp_match)
  next
    case True
    have "first_of (concat (map (\<lambda>t2. map (\<lambda>t3. take (length ([b] @ body) - length t2) ([b] @ body))
                                  (rx_match block_post t2))
                      (concat (map (rx_match (Chr CHR ''}'')) (rx_match (LazyStar Dot) body)))))
       = map_option ((@) [b]) (close_at body)"
      by (rule group_close)
    moreover have "(@) [b] = (#) b" by (rule ext) simp
    ultimately show ?thesis using Cons True by (simp add: block_grp_match)
  qed
qed

lemma block_group_space:
  assumes "t \<noteq> []" and "py_isspace (hd t)"
  shows "concat (map (\<lambda>t2. map (\<lambda>t3. take (length t - length t2) t) (rx_match block_post t2))
                   (rx_match block_grp t)) = []"
proof -
  have "\<not> py_isspace CHR ''{''" by code_simp
  then have "hd t \<noteq> CHR ''{''" using assms by auto
  then have "rx_match block_grp t = []"
    using assms by (cases t) (simp_all add: block_grp_match)
  then show ?thesis by simp
qed

lemma block_group_json:
  assumes "take 4 t = ''json''"
  shows "concat (map (\<lambda>t2. map (\<lambda>t3. take (length (dropWhile py_isspace t) - length t2)
                                       (dropWhile py_isspace t))
                              (rx_match block_post t2))
                   (rx_match block_grp (dropWhile py_isspace t))) = []"
proof -
  obtain r where t: "t = CHR ''j'' # r" using assms by (cases t) auto
  have "\<not> py_isspace CHR ''j''" by code_simp
  then have "dropWhile py_isspace t = t" using t by simp
  then show ?thesis using t by (simp add: block_grp_match)
qed

lemma block_match_group_at:
  "first_of (rx_match_group block_pre block_grp block_post s) = block_at s"
proof -
  let ?G = "\<lambda>t1. concat (map (\<lambda>t2. map (\<lambda>t3. take (length t1 - length t2) t1)
                                      (rx_match block_post t2))
                           (rx_match block_grp t1))"
  have l: "length fence = 3" by (simp add: fence_def)
  have l4: "length ''json'' = 4" by simp
  have tag: "rx_match (lit ''json'') t = (if take 4 t = ''json'' then [drop 4 t] else [])" for t
    using lit_match [of "''json''" t] by (simp only: l4)
  have sj: "strip_prefix ''json'' t = (if take 4 t = ''json'' then Some (drop 4 t) else None)" for t
    unfolding strip_prefix_def by (simp only: l4)
  have sp: "\<And>t. concat (map ?G (rx_match (Star Space) t)) = ?G (dropWhile py_isspace t)"
    by (rule star_space_then) (rule block_group_space)
  show ?thesis
  proof (cases "take 3 s = fence")
    case False
    then show ?thesis
      by (simp add: rx_match_group_def block_pre_def rx_match.simps(5) lit_match l
          block_at_def strip_prefix_def del: lit.simps)
  next
    case fenced: True
    show ?thesis
    proof (cases "take 4 (drop 3 s) = ''json''")
      case True
      have "rx_match block_pre s
          = rx_match (Star Space) (drop 4 (drop 3 s)) @ rx_match (Star Space) (drop 3 s)"
        using fenced True by (simp add: block_pre_def rx_match.simps(5,6) lit_match [of fence] l tag del: lit.simps)
      then have "rx_match_group block_pre block_grp block_post s
          = ?G (dropWhile py_isspace (drop 4 (drop 3 s))) @ ?G (dropWhile py_isspace (drop 3 s))"
        unfolding rx_match_group_def by (simp only: map_append concat_append sp)
      also have "\<dots> = ?G (dropWhile py_isspace (drop 4 (drop 3 s)))"
        using block_group_json [OF True] by simp
      finally show ?thesis
        using fenced True
        by (simp only: block_group_at) (simp add: block_at_def strip_prefix_def [of fence] sj l)
    next
      case False
      have "rx_match block_pre s = rx_match (Star Space) (drop 3 s)"
        using fenced False by (simp add: block_pre_def rx_match.simps(5,6) lit_match [of fence] l tag del: lit.simps)
      then have "rx_match_group block_pre block_grp block_post s
          = ?G (dropWhile py_isspace (drop 3 s))"
        unfolding rx_match_group_def by (simp only: sp)
      then show ?thesis
        using fenced False
        by (simp only: block_group_at) (simp add: block_at_def strip_prefix_def [of fence] sj l)
    qed
  qed
qed

lemma block_search_span: "rx_search_group block_pre block_grp block_post s = block_span s"
proof (induction s)
  case Nil
  have "block_at [] = None" by (simp add: block_at_def strip_prefix_def fence_def)
  then show ?case
    using block_match_group_at [of "[]"]
    by (simp add: rx_search_group.simps first_of_case)
next
  case (Cons x s)
  have "rx_search_group block_pre block_grp block_post (x # s)
      = (case first_of (rx_match_group block_pre block_grp block_post (x # s)) of
           None \<Rightarrow> rx_search_group block_pre block_grp block_post s
         | Some g \<Rightarrow> Some g)"
    by (cases "rx_match_group block_pre block_grp block_post (x # s)")
      (simp_all add: rx_search_group.simps)
  then show ?case
    by (simp add: block_match_group_at Cons.IH split: option.splits)
qed

declare block_span.simps [simp del]

subsection \<open>The stages\<close>

lemma example_spans:
  "brace_span wrapped_in_text = Some key_value"
  "brace_span in_code_block = Some key_value"
  "block_span in_code_block = Some key_value"
  "brace_span ''This is not JSON'' = None"
  "block_span ''This is not JSON'' = None"
  "brace_span no_fence = Some no_fence"
  "block_span no_fence = None"
  "take 200 no_fence = no_fence"
  "brace_span block_then_braces = Some (key_value @ [CHR 0x0A] @ fence @ '' or {so}'')"
  "block_span block_then_braces = Some key_value"
  by code_simp+

lemma parse_json_response_eq:
  "parse_json_response loads content =
     (case loads content of
        Decoded v \<Rightarrow> Inr v
      | Raised e \<Rightarrow> Inl e
      | JSONDecodeError \<Rightarrow>
          (case (case brace_span content of Some m \<Rightarrow> loads m | None \<Rightarrow> JSONDecodeError) of
             Decoded v \<Rightarrow> Inr v
           | Raised e \<Rightarrow> Inl e
           | JSONDecodeError \<Rightarrow>
               (case (case block_span content of Some g \<Rightarrow> loads g | None \<Rightarrow> JSONDecodeError) of
                  Decoded v \<Rightarrow> Inr v
                | Raised e \<Rightarrow> Inl e
                | JSONDecodeError \<Rightarrow>
                    Inl (AIServiceError
                      (''Invalid JSON response from AI: '' @ take 200 content @ ''...'')))))"
  unfolding parse_json_response_def try_loads_def brace_search_span block_search_span
  by (simp split: option.splits loads_result.splits)

subsection \<open>Texts on which the decoder raises another exception\<close>

lemma parse_value_deep_array:
  "d < n \<Longrightarrow> 2 * d + 1 \<le> f \<Longrightarrow>
     parse_value L f d (replicate n CHR ''['') = Raised (recursion_error ''array'')"
proof (induction d arbitrary: f n)
  case 0
  then obtain f' n' where "f = Suc f'" "n = Suc n'"
    by (cases f; cases n) auto
  then show ?case by simp
next
  case (Suc d)
  define f' where "f' = f - 2"
  define n' where "n' = n - 2"
  have f: "f = Suc (Suc f')" and n: "n = Suc (Suc n')"
    using Suc.prems by (simp_all add: f'_def n'_def)
  have "parse_value L f' d (replicate (Suc n') CHR ''['') = Raised (recursion_error ''array'')"
    using Suc.prems f n by (intro Suc.IH) simp_all
  then show ?case
    unfolding f n by (simp add: skip_ws_def json_ws_def)
qed

lemma json_loads_deep_array:
  assumes "max_depth L < n"
  shows "json_loads L (replicate n CHR ''['') = Raised (recursion_error ''array'')"
proof -
  have "skip_ws (replicate n CHR ''['') = replicate n CHR ''[''"
    by (cases n) (simp_all add: skip_ws_def json_ws_def)
  moreover have "parse_value L (2 * n + 2) (max_depth L) (replicate n CHR ''['')
      = Raised (recursion_error ''array'')"
    using assms by (intro parse_value_deep_array) simp_all
  ultimately show ?thesis by (simp add: json_loads_def)
qed

lemma json_loads_long_integer:
  assumes "0 < int_max_str_digits L" and "int_max_str_digits L < n"
  shows "json_loads L (replicate n CHR ''7'') = Raised int_digits_error"
proof -
  obtain m where n: "n = Suc m" using assms by (cases n) auto
  have d: "is_digit CHR ''7''" by code_simp
  have i: "scan_int (replicate (Suc m) CHR ''7'') = Some (replicate (Suc m) CHR ''7'', [])"
    using d by (simp add: scan_int_def takeWhile_replicate dropWhile_replicate)
  have s: "scan_number (replicate (Suc m) CHR ''7'') = Some (replicate (Suc m) CHR ''7'', [])"
    unfolding scan_number_def using i by (simp add: scan_frac_def scan_exp_def)
  have v: "number_value L (replicate (Suc m) CHR ''7'') [] = Raised int_digits_error"
    using assms d unfolding n
    by (simp add: number_value_def is_integer_def list_all_iff)
  have c: "scan_constant L (replicate (Suc m) CHR ''7'') = Raised int_digits_error"
    unfolding scan_constant_def s using v by (simp add: strip_prefix_def)
  have w: "skip_ws (replicate (Suc m) CHR ''7'') = replicate (Suc m) CHR ''7''"
    by (simp add: skip_ws_def json_ws_def)
  have "parse_value L (Suc (2 * Suc m + 1)) (max_depth L) (replicate (Suc m) CHR ''7'')
      = scan_constant L (replicate (Suc m) CHR ''7'')"
    by simp
  then show ?thesis
    unfolding n json_loads_def w using c by simp
qed

lemma brace_span_no_brace: "CHR ''{'' \<notin> set s \<Longrightarrow> brace_span s = None"
proof -
  assume "CHR ''{'' \<notin> set s"
  then have d: "dropWhile (\<lambda>c. c \<noteq> CHR ''{'') s = []" by auto
  show ?thesis unfolding brace_span_def d by simp
qed

lemma block_span_no_fence: "CHR 0x60 \<notin> set s \<Longrightarrow> block_span s = None"
  by (induction s) (auto simp: block_span.simps block_at_def strip_prefix_def fence_def)

text \<open>
  Claim C4 says that a text on which all three stages fail raises an \<open>AIServiceError\<close>.
  The three \<open>except\<close> clauses catch \<open>JSONDecodeError\<close> and nothing else. On a text of
  100000 opening brackets \<open>json.loads\<close> raises a \<open>RecursionError\<close>, on an integer of 5000
  digits a \<open>ValueError\<close>: the first stage leaves the function with that exception, the
  other two stages are not tried (they would find nothing in these texts), and no
  \<open>AIServiceError\<close> is raised.
\<close>

theorem parse_json_response_other_exception:
  "parse_json_response (json_loads cpython_limits) deep_array
     = Inl (OtherException
         ''maximum recursion depth exceeded while decoding a JSON array from a unicode string'')
   \<and> brace_span deep_array = None \<and> block_span deep_array = None
   \<and> parse_json_response (json_loads cpython_limits) long_integer
     = Inl (OtherException ''Exceeds the limit for integer string conversion'')
   \<and> brace_span long_integer = None \<and> block_span long_integer = None"
proof -
  have a: "json_loads cpython_limits deep_array = Raised (recursion_error ''array'')"
    unfolding deep_array_def by (rule json_loads_deep_array) (simp add: cpython_limits_def)
  have b: "json_loads cpython_limits long_integer = Raised int_digits_error"
    unfolding long_integer_def by (rule json_loads_long_integer) (simp_all add: cpython_limits_def)
  have c: "brace_span deep_array = None" "brace_span long_integer = None"
    unfolding deep_array_def long_integer_def by (rule brace_span_no_brace, simp)+
  have d: "block_span deep_array = None" "block_span long_integer = None"
    unfolding deep_array_def long_integer_def by (rule block_span_no_fence, simp)+
  show ?thesis
    by (simp add: parse_json_response_def a b c d recursion_error_def int_digits_error_def)
qed

text \<open>
  Claim C4, amended. For every model output, \<open>_parse_json_response\<close> returns what
  \<open>json.loads\<close> gives for the whole text; when that raises \<open>JSONDecodeError\<close>, what it
  gives for the match of \<open>\{.*\}\<close>, which is the span from the first \<open>{\<close> to the last
  \<open>}\<close> of the text; when that raises \<open>JSONDecodeError\<close> or there is no such span, what
  it gives for the group of the code block pattern, which is the interior of the first
  fenced code block, tagged \<open>json\<close> or not: from the \<open>{\<close> after the opening fence, the tag
  and white space, to the first \<open>}\<close> that white space and a fence follow; and when that
  raises \<open>JSONDecodeError\<close> too or there is no such block, it raises an \<open>AIServiceError\<close>
  with the message \<open>Invalid JSON response from AI: \<close>, the first 200 characters of the
  text and \<open>...\<close>. Any other exception that \<open>json.loads\<close> raises, at any of the three
  stages, leaves the function as it is, and no further stage is tried.
  Of the three outputs of the tests, the object with the one member \<open>key\<close>, the same
  within a sentence and the same within a fenced block tagged json, each is parsed to
  what \<open>json.loads\<close> gives for the object (the wrapped ones are no JSON as a whole); so
  is the fenced block followed by more braces, which only the third stage parses. The
  text \<open>This is not JSON\<close>, and the object followed by more braces without any fence,
  in which the code block pattern finds nothing, raise the error.
\<close>

theorem parse_json_response_stages:
  "parse_json_response loads content =
     (case loads content of
        Decoded v \<Rightarrow> Inr v
      | Raised e \<Rightarrow> Inl e
      | JSONDecodeError \<Rightarrow>
          (case (case brace_span content of Some m \<Rightarrow> loads m | None \<Rightarrow> JSONDecodeError) of
             Decoded v \<Rightarrow> Inr v
           | Raised e \<Rightarrow> Inl e
           | JSONDecodeError \<Rightarrow>
               (case (case block_span content of Some g \<Rightarrow> loads g | None \<Rightarrow> JSONDecodeError) of
                  Decoded v \<Rightarrow> Inr v
                | Raised e \<Rightarrow> Inl e
                | JSONDecodeError \<Rightarrow>
                    Inl (AIServiceError
                      (''Invalid JSON response from AI: '' @ take 200 content @ ''...'')))))
   \<and> rx_search brace_rx content = brace_span content
   \<and> rx_search_group block_pre block_grp block_post content = block_span content
   \<and> (loads content = Raised e \<longrightarrow> parse_json_response loads content = Inl e)
   \<and> (loads key_value = Decoded v \<longrightarrow> parse_json_response loads key_value = Inr v)
   \<and> (loads key_value = Decoded v \<longrightarrow> loads wrapped_in_text = JSONDecodeError \<longrightarrow>
        parse_json_response loads wrapped_in_text = Inr v)
   \<and> (loads key_value = Decoded v \<longrightarrow> loads in_code_block = JSONDecodeError \<longrightarrow>
        parse_json_response loads in_code_block = Inr v)
   \<and> rx_search_group block_pre block_grp block_post in_code_block = Some key_value
   \<and> rx_search_group block_pre block_grp block_post no_fence = None
   \<and> (loads key_value = Decoded v \<longrightarrow> loads block_then_braces = JSONDecodeError \<longrightarrow>
        loads (key_value @ [CHR 0x0A] @ fence @ '' or {so}'') = JSONDecodeError \<longrightarrow>
        parse_json_response loads block_then_braces = Inr v)
   \<and> (loads ''This is not JSON'' = JSONDecodeError \<longrightarrow>
        parse_json_response loads ''This is not JSON'' =
          Inl (AIServiceError ''Invalid JSON response from AI: This is not JSON...''))
   \<and> (loads no_fence = JSONDecodeError \<longrightarrow>
        parse_json_response loads no_fence =
          Inl (AIServiceError (''Invalid JSON response from AI: '' @ no_fence @ ''...'')))"
proof -
  have 0: "loads content = Raised e \<longrightarrow> parse_json_response loads content = Inl e"
    by (simp add: parse_json_response_def)
  have 1: "loads key_value = Decoded v \<longrightarrow> parse_json_response loads key_value = Inr v"
    by (simp add: parse_json_response_def)
  have 2: "loads key_value = Decoded v \<longrightarrow> loads wrapped_in_text = JSONDecodeError \<longrightarrow>
        parse_json_response loads wrapped_in_text = Inr v"
    by (simp add: parse_json_response_eq example_spans)
  have 3: "loads key_value = Decoded v \<longrightarrow> loads in_code_block = JSONDecodeError \<longrightarrow>
        parse_json_response loads in_code_block = Inr v"
    by (simp add: parse_json_response_eq example_spans)
  have 4: "loads key_value = Decoded v \<longrightarrow> loads block_then_braces = JSONDecodeError \<longrightarrow>
        loads (key_value @ [CHR 0x0A] @ fence @ '' or {so}'') = JSONDecodeError \<longrightarrow>
        parse_json_response loads block_then_braces = Inr v"
    by (simp add: parse_json_response_eq example_spans)
  have 5: "loads ''This is not JSON'' = JSONDecodeError \<longrightarrow>
        parse_json_response loads ''This is not JSON'' =
          Inl (AIServiceError ''Invalid JSON response from AI: This is not JSON...'')"
    by (simp add: parse_json_response_eq example_spans)
  have 6: "loads no_fence = JSONDecodeError \<longrightarrow>
        parse_json_response loads no_fence =
          Inl (AIServiceError (''Invalid JSON response from AI: '' @ no_fence @ ''...''))"
    by (simp add: parse_json_response_eq example_spans)
  have 7: "rx_search_group block_pre block_grp block_post in_code_block = Some key_value"
    "rx_search_group block_pre block_grp block_post no_fence = None"
    by (simp_all add: block_search_span example_spans)
  show ?thesis
    using parse_json_response_eq [of loads content] brace_search_span [of content]
      block_search_span [of content] 0 1 2 3 4 5 6 7
    by blast
qed

theorem parse_json_response_stages_witness:
  "parse_json_response (json_loads cpython_limits) key_value
     = Inr (JObject [(''key'', JString ''value'')])
   \<and> parse_json_response (json_loads cpython_limits) wrapped_in_text
     = Inr (JObject [(''key'', JString ''value'')])
   \<and> parse_json_response (json_loads cpython_limits) in_code_block
     = Inr (JObject [(''key'', JString ''value'')])
   \<and> parse_json_response (json_loads cpython_limits) block_then_braces
     = Inr (JObject [(''key'', JString ''value'')])
   \<and> parse_json_response (json_loads cpython_limits) ''This is not JSON''
     = Inl (AIServiceError ''Invalid JSON response from AI: This is not JSON...'')
   \<and> parse_json_response (json_loads cpython_limits) no_fence
     = Inl (AIServiceError (''Invalid JSON response from AI: '' @ no_fence @ ''...''))
   \<and> parse_json_response (json_loads cpython_limits) deep_array
     = Inl (recursion_error ''array'')"
proof -
  have l: "json_loads cpython_limits key_value = Decoded (JObject [(''key'', JString ''value'')])"
    "json_loads cpython_limits wrapped_in_text = JSONDecodeError"
    "json_loads cpython_limits in_code_block = JSONDecodeError"
    "json_loads cpython_limits block_then_braces = JSONDecodeError"
    "json_loads cpython_limits (key_value @ [CHR 0x0A] @ fence @ '' or {so}'') = JSONDecodeError"
    "json_loads cpython_limits ''This is not JSON'' = JSONDecodeError"
    "json_loads cpython_limits no_fence = JSONDecodeError"
    by code_simp+
  have r: "json_loads cpython_limits deep_array = Raised (recursion_error ''array'')"
    unfolding deep_array_def by (rule json_loads_deep_array) (simp add: cpython_limits_def)
  have "parse_json_response (json_loads cpython_limits) deep_array = Inl (recursion_error ''array'')"
    using parse_json_response_stages
      [of "json_loads cpython_limits" deep_array "recursion_error ''array''"] r
    by simp
  then show ?thesis
    using parse_json_response_stages
      [of "json_loads cpython_limits" key_value _ "JObject [(''key'', JString ''value'')]"] l
    by simp
qed
end
